theory Spec2Isabelle
  imports Complex_Main "HOL-Library.AList" "HOL-Library.Product_Lexorder" "HOL-Library.Sublist"
    "HOL-Library.List_Lexorder" "HOL-Library.Char_ord"
begin

section \<open>Shared data: errors, floats and corpus metadata\<close>

text \<open>
  The Python exceptions that the modelled functions can raise.  A function that can
  raise returns \<open>py_error + 'a\<close>, with \<open>Inl\<close> the exception.
\<close>

datatype py_error =
  ValueError | IndexError | KeyError | TypeError | ZeroDivisionError | AssertionError

text \<open>
  A Python float is an IEEE double: a finite number, one of the two infinities, or NaN.
  The rounding of a finite result to the nearest double and the sign of zero are not
  modelled: a finite result is kept as the exact real.  Overflow is modelled: a result
  whose magnitude reaches \<open>2^1024 - 2^970\<close>, halfway between the largest double
  \<open>DBL_MAX\<close> and \<open>2^1024\<close>, rounds to the infinity of its sign, as the hardware
  delivers it; Python raises no exception for \<open>+\<close>, \<open>-\<close> and \<open>*\<close>.
\<close>

datatype pyfloat = is_Fin: Fin (fval: real) | PInf | NInf | NaN

definition DBL_MAX :: real where
  "DBL_MAX = 2 ^ 1024 - 2 ^ 971"

definition DBL_OVERFLOW :: real where
  "DBL_OVERFLOW = 2 ^ 1024 - 2 ^ 970"

definition fround :: "real \<Rightarrow> pyfloat" where
  "fround r =
     (if DBL_OVERFLOW \<le> r then PInf else if r \<le> - DBL_OVERFLOW then NInf else Fin r)"

fun fneg :: "pyfloat \<Rightarrow> pyfloat" where
  "fneg (Fin r) = Fin (- r)"
| "fneg PInf = NInf"
| "fneg NInf = PInf"
| "fneg NaN = NaN"

text \<open>\<open>x + y\<close>: the sum of opposite infinities is NaN.\<close>

fun fadd :: "pyfloat \<Rightarrow> pyfloat \<Rightarrow> pyfloat" where
  "fadd (Fin a) (Fin b) = fround (a + b)"
| "fadd NaN y = NaN"
| "fadd x NaN = NaN"
| "fadd PInf NInf = NaN"
| "fadd NInf PInf = NaN"
| "fadd PInf y = PInf"
| "fadd NInf y = NInf"
| "fadd (Fin a) y = y"

definition fsub :: "pyfloat \<Rightarrow> pyfloat \<Rightarrow> pyfloat" where
  "fsub x y = fadd x (fneg y)"

text \<open>The sign of a float that is neither NaN nor zero: \<open>True\<close> for positive.\<close>

fun fpos :: "pyfloat \<Rightarrow> bool" where
  "fpos (Fin r) = (0 < r)"
| "fpos PInf = True"
| "fpos NInf = False"
| "fpos NaN = False"

text \<open>\<open>x * y\<close>: infinity times zero is NaN.\<close>

fun fmul :: "pyfloat \<Rightarrow> pyfloat \<Rightarrow> pyfloat" where
  "fmul (Fin a) (Fin b) = fround (a * b)"
| "fmul NaN y = NaN"
| "fmul x NaN = NaN"
| "fmul x y = (if x = Fin 0 \<or> y = Fin 0 then NaN
               else if fpos x = fpos y then PInf else NInf)"

text \<open>
  \<open>x / y\<close>: Python raises \<open>ZeroDivisionError\<close> when the divisor is zero, also for an
  infinite or NaN dividend; infinity over infinity is NaN.
\<close>

fun fdiv :: "pyfloat \<Rightarrow> pyfloat \<Rightarrow> py_error + pyfloat" where
  "fdiv x (Fin b) =
     (if b = 0 then Inl ZeroDivisionError
      else case x of
             Fin a \<Rightarrow> Inr (fround (a / b))
           | NaN \<Rightarrow> Inr NaN
           | _ \<Rightarrow> Inr (if fpos x = (0 < b) then PInf else NInf))"
| "fdiv x NaN = Inr NaN"
| "fdiv (Fin a) y = Inr (Fin 0)"
| "fdiv x y = Inr NaN"

text \<open>\<open>x < y\<close> and \<open>x == y\<close>: every comparison with NaN is false.\<close>

fun flt :: "pyfloat \<Rightarrow> pyfloat \<Rightarrow> bool" where
  "flt (Fin a) (Fin b) = (a < b)"
| "flt NaN y = False"
| "flt x NaN = False"
| "flt x NInf = False"
| "flt PInf y = False"
| "flt x y = True"

definition feq :: "pyfloat \<Rightarrow> pyfloat \<Rightarrow> bool" where
  "feq x y = (x \<noteq> NaN \<and> x = y)"

text \<open>
  One entry of \<open>metadata.json\<close>, as \<open>CorpusDocument.to_dict\<close> writes it, without the
  \<open>content_hash\<close>, which no function reads.  The field \<open>type\<close> is \<open>None\<close> when the
  section had no type line.  Strings are lists of 8-bit characters (code points below
  256).
\<close>

record meta =
  m_id :: string
  m_title :: string
  m_tags :: "string list"
  m_type :: "string option"
  m_content :: string
  m_source_file :: string

section \<open>build\_index.py\<close>

datatype faiss_index =
    IndexFlatL2 nat
  | IndexIVFFlat nat nat
  | IndexHNSWFlat nat nat

text \<open>
  \<open>build_faiss_index\<close>: \<open>dimension\<close> is \<open>embeddings.shape[0]\<close> (the number of vectors),
  \<open>embedding_dim\<close> is \<open>embeddings.shape[1]\<close>.  The result records which index is
  constructed and with which parameters; for the IVF index the second component is
  \<open>nlist\<close>, the number of clusters.
\<close>

definition build_faiss_index :: "nat \<Rightarrow> nat \<Rightarrow> string \<Rightarrow> py_error + faiss_index" where
  "build_faiss_index dimension embedding_dim index_type =
     (if index_type = ''Flat'' then Inr (IndexFlatL2 embedding_dim)
      else if index_type = ''IVF'' then
        (let nlist = min 100 (dimension div 10)
         in Inr (IndexIVFFlat embedding_dim nlist))
      else if index_type = ''HNSW'' then
        (let M = 32 in Inr (IndexHNSWFlat embedding_dim M))
      else Inl ValueError)"

section \<open>query\_rag.py\<close>

text \<open>
  A result row: the copied metadata entry with the keys the query functions add.
\<close>

record result =
  r_doc :: meta
  r_score :: pyfloat
  r_search_type :: string
  r_semantic_score :: "pyfloat option"
  r_keyword_score :: "pyfloat option"

text \<open>
  The loaded knowledge base.  \<open>kb_search q k\<close> stands for
  \<open>faiss_index.search(model.encode([q]), k)\<close>, as the list of pairs that
  \<open>zip(indices[0], distances[0])\<close> iterates over, or the exception the library raises.
  \<open>kb_bm25 q\<close> stands for \<open>bm25_index.get_scores(q.lower().split())\<close>, one score per
  indexed document.  Both libraries are outside the repository and are taken as
  parameters.  \<open>kb_argsort\<close> is \<open>np.argsort\<close> and \<open>kb_set_order\<close> is the iteration
  order of a Python set of strings (given the elements in some listing, it returns them
  in hash order).  \<open>kb_sort_nan\<close> is the order \<open>sorted(..., reverse=True)\<close> produces
  when some key is NaN, where the comparison is no longer an order; it is given the
  elements with their keys.  Result counts \<open>top_k\<close> are natural numbers.
\<close>

record kb =
  kb_metadata :: "meta list"
  kb_search :: "string \<Rightarrow> nat \<Rightarrow> py_error + (int \<times> pyfloat) list"
  kb_bm25 :: "string \<Rightarrow> pyfloat list"
  kb_argsort :: "pyfloat list \<Rightarrow> nat list"
  kb_set_order :: "string list \<Rightarrow> string list"
  kb_sort_nan :: "(string \<times> pyfloat) list \<Rightarrow> string list"

text \<open>
  \<open>xs[i]\<close> on a Python list: \<open>i\<close> in \<open>0 .. len-1\<close> reads from the front, \<open>i\<close> in
  \<open>-len .. -1\<close> reads from the back, anything else raises.
\<close>

definition py_get :: "'a list \<Rightarrow> int \<Rightarrow> py_error + 'a" where
  "py_get xs i =
     (if 0 \<le> i \<and> i < int (length xs) then Inr (xs ! nat i)
      else if i < 0 \<and> - int (length xs) \<le> i then Inr (xs ! nat (int (length xs) + i))
      else Inl IndexError)"

definition mk_result :: "meta \<Rightarrow> pyfloat \<Rightarrow> string \<Rightarrow> result" where
  "mk_result doc s ty =
     \<lparr>r_doc = doc, r_score = s, r_search_type = ty,
      r_semantic_score = None, r_keyword_score = None\<rparr>"

fun semantic_rows :: "meta list \<Rightarrow> (int \<times> pyfloat) list \<Rightarrow> py_error + result list" where
  "semantic_rows metadata [] = Inr []"
| "semantic_rows metadata ((idx, distance) # rest) =
     (case py_get metadata idx of
        Inl e \<Rightarrow> Inl e
      | Inr doc \<Rightarrow>
          (case semantic_rows metadata rest of
             Inl e \<Rightarrow> Inl e
           | Inr rs \<Rightarrow> Inr (mk_result doc distance ''semantic'' # rs)))"

definition query_semantic :: "kb \<Rightarrow> string \<Rightarrow> nat \<Rightarrow> py_error + result list" where
  "query_semantic self query top_k =
     (case kb_search self query top_k of
        Inl e \<Rightarrow> Inl e
      | Inr hits \<Rightarrow> semantic_rows (kb_metadata self) hits)"

text \<open>
  The slice \<open>a[-top_k:]\<close>: for \<open>top_k = 0\<close> it is \<open>a[0:]\<close>, the whole list.
\<close>

definition py_last_k :: "nat \<Rightarrow> 'a list \<Rightarrow> 'a list" where
  "py_last_k k xs = (if k = 0 then xs else drop (length xs - k) xs)"

fun keyword_rows :: "meta list \<Rightarrow> pyfloat list \<Rightarrow> nat list \<Rightarrow> py_error + result list" where
  "keyword_rows metadata scores [] = Inr []"
| "keyword_rows metadata scores (idx # rest) =
     (case py_get metadata (int idx) of
        Inl e \<Rightarrow> Inl e
      | Inr doc \<Rightarrow>
          (case py_get scores (int idx) of
             Inl e \<Rightarrow> Inl e
           | Inr s \<Rightarrow>
               (case keyword_rows metadata scores rest of
                  Inl e \<Rightarrow> Inl e
                | Inr rs \<Rightarrow> Inr (mk_result doc s ''keyword'' # rs))))"

definition query_keyword :: "kb \<Rightarrow> string \<Rightarrow> nat \<Rightarrow> py_error + result list" where
  "query_keyword self query top_k =
     (let scores = kb_bm25 self query;
          top_indices = rev (py_last_k top_k (kb_argsort self scores))
      in keyword_rows (kb_metadata self) scores top_indices)"

text \<open>
  A Python dict as an association list in insertion order.  The comprehension
  \<open>{doc["id"]: doc["score"] for doc in results}\<close> keeps the position of the first
  occurrence of a key and the value of the last.
\<close>

definition score_dict :: "result list \<Rightarrow> (string \<times> pyfloat) list" where
  "score_dict results =
     foldl (\<lambda>d r. AList.update (m_id (r_doc r)) (r_score r) d) [] results"

text \<open>
  The builtins \<open>min\<close> and \<open>max\<close> on a list: they raise on the empty list, start from
  the first item and replace the current item by a later one only when that one
  compares strictly smaller (strictly greater).
\<close>

fun py_min :: "pyfloat list \<Rightarrow> py_error + pyfloat" where
  "py_min [] = Inl ValueError"
| "py_min (x # xs) = Inr (fold (\<lambda>item cur. if flt item cur then item else cur) xs x)"

fun py_max :: "pyfloat list \<Rightarrow> py_error + pyfloat" where
  "py_max [] = Inl ValueError"
| "py_max (x # xs) = Inr (fold (\<lambda>item cur. if flt cur item then item else cur) xs x)"

text \<open>The dict comprehension of the last line of \<open>normalize\<close>, item by item.\<close>

fun normalize_items ::
  "pyfloat \<Rightarrow> pyfloat \<Rightarrow> (string \<times> pyfloat) list \<Rightarrow> py_error + (string \<times> pyfloat) list" where
  "normalize_items min_val max_val [] = Inr []"
| "normalize_items min_val max_val ((k, v) # rest) =
     (case fdiv (fsub v min_val) (fsub max_val min_val) of
        Inl e \<Rightarrow> Inl e
      | Inr q \<Rightarrow>
          (case normalize_items min_val max_val rest of
             Inl e \<Rightarrow> Inl e
           | Inr d \<Rightarrow> Inr ((k, q) # d)))"

definition normalize :: "(string \<times> pyfloat) list \<Rightarrow> py_error + (string \<times> pyfloat) list" where
  "normalize scores =
     (let values = map snd scores
      in case py_min values of
           Inl e \<Rightarrow> Inl e
         | Inr min_val \<Rightarrow>
             (case py_max values of
                Inl e \<Rightarrow> Inl e
              | Inr max_val \<Rightarrow>
                  if feq max_val min_val then Inr (map (\<lambda>(k, v). (k, Fin 0.5)) scores)
                  else normalize_items min_val max_val scores))"

text \<open>\<open>d.get(k, 0.0)\<close>\<close>

definition get_or_zero :: "(string \<times> pyfloat) list \<Rightarrow> string \<Rightarrow> pyfloat" where
  "get_or_zero d k = (case map_of d k of None \<Rightarrow> Fin 0 | Some v \<Rightarrow> v)"

definition combined_score ::
  "pyfloat \<Rightarrow> (string \<times> pyfloat) list \<Rightarrow> (string \<times> pyfloat) list \<Rightarrow> string \<Rightarrow> pyfloat" where
  "combined_score alpha semantic_norm keyword_norm doc_id =
     fadd (fmul alpha (get_or_zero semantic_norm doc_id))
          (fmul (fsub (Fin 1) alpha) (get_or_zero keyword_norm doc_id))"

text \<open>
  \<open>sorted(keys, key=..., reverse=True)\<close> is stable: it orders by descending key and
  keeps the input order among equal keys.  \<open>desc_key\<close> maps a float that is not NaN
  into a linear order that reverses the order of the floats.
\<close>

definition desc_key :: "pyfloat \<Rightarrow> int \<times> real" where
  "desc_key x = (case x of PInf \<Rightarrow> (0, 0) | Fin r \<Rightarrow> (1, - r) | NInf \<Rightarrow> (2, 0) | NaN \<Rightarrow> (3, 0))"

definition sorted_desc :: "kb \<Rightarrow> (string \<Rightarrow> pyfloat) \<Rightarrow> string list \<Rightarrow> string list" where
  "sorted_desc self f xs =
     (if NaN \<in> set (map f xs) then kb_sort_nan self (map (\<lambda>x. (x, f x)) xs)
      else sort_key (\<lambda>x. desc_key (f x)) xs)"

fun hybrid_rows ::
  "meta list \<Rightarrow> (string \<Rightarrow> pyfloat) \<Rightarrow> (string \<times> pyfloat) list \<Rightarrow> (string \<times> pyfloat) list \<Rightarrow>
   string list \<Rightarrow> result list" where
  "hybrid_rows metadata combined semantic_norm keyword_norm [] = []"
| "hybrid_rows metadata combined semantic_norm keyword_norm (doc_id # rest) =
     (case find (\<lambda>d. m_id d = doc_id) metadata of
        None \<Rightarrow> hybrid_rows metadata combined semantic_norm keyword_norm rest
      | Some doc \<Rightarrow>
          \<lparr>r_doc = doc, r_score = combined doc_id, r_search_type = ''hybrid'',
           r_semantic_score = Some (get_or_zero semantic_norm doc_id),
           r_keyword_score = Some (get_or_zero keyword_norm doc_id)\<rparr>
          # hybrid_rows metadata combined semantic_norm keyword_norm rest)"

definition all_doc_ids ::
  "kb \<Rightarrow> (string \<times> pyfloat) list \<Rightarrow> (string \<times> pyfloat) list \<Rightarrow> string list" where
  "all_doc_ids self semantic_norm keyword_norm =
     kb_set_order self (remdups (map fst semantic_norm @ map fst keyword_norm))"

definition top_doc_ids ::
  "kb \<Rightarrow> pyfloat \<Rightarrow> nat \<Rightarrow> (string \<times> pyfloat) list \<Rightarrow> (string \<times> pyfloat) list \<Rightarrow>
   string list" where
  "top_doc_ids self alpha top_k semantic_norm keyword_norm =
     take top_k (sorted_desc self (combined_score alpha semantic_norm keyword_norm)
                   (all_doc_ids self semantic_norm keyword_norm))"

text \<open>
  \<open>query_hybrid\<close>, first half (lines 176 to 194): both sub-searches over the whole
  corpus, their score dicts, and the two normalized dicts.
\<close>

definition hybrid_norms ::
  "kb \<Rightarrow> string \<Rightarrow> py_error + ((string \<times> pyfloat) list \<times> (string \<times> pyfloat) list)" where
  "hybrid_norms self query =
     (case query_semantic self query (length (kb_metadata self)) of
        Inl e \<Rightarrow> Inl e
      | Inr semantic_results \<Rightarrow>
     (case query_keyword self query (length (kb_metadata self)) of
        Inl e \<Rightarrow> Inl e
      | Inr keyword_results \<Rightarrow>
     (case normalize (score_dict semantic_results) of
        Inl e \<Rightarrow> Inl e
      | Inr semantic_norm \<Rightarrow>
     (case normalize (score_dict keyword_results) of
        Inl e \<Rightarrow> Inl e
      | Inr keyword_norm \<Rightarrow> Inr (semantic_norm, keyword_norm)))))"

text \<open>
  \<open>query_hybrid\<close>, second half (lines 196 to 223): combine, sort, cut to \<open>top_k\<close> and
  build the result rows.
\<close>

definition query_hybrid :: "kb \<Rightarrow> string \<Rightarrow> nat \<Rightarrow> pyfloat \<Rightarrow> py_error + result list" where
  "query_hybrid self query top_k alpha =
     (case hybrid_norms self query of
        Inl e \<Rightarrow> Inl e
      | Inr (semantic_norm, keyword_norm) \<Rightarrow>
          Inr (hybrid_rows (kb_metadata self)
                 (combined_score alpha semantic_norm keyword_norm)
                 semantic_norm keyword_norm
                 (top_doc_ids self alpha top_k semantic_norm keyword_norm)))"

text \<open>The ranking of a result list: the document ids in result order.\<close>

definition ranking :: "result list \<Rightarrow> string list" where
  "ranking rs = map (\<lambda>r. m_id (r_doc r)) rs"

subsection \<open>The libraries behind the knowledge base, for concrete runs\<close>

text \<open>
  \<open>IndexFlatL2.search\<close> of FAISS, for stored vectors whose squared distances to the
  query are \<open>ds\<close> (in insertion order): it asserts \<open>k > 0\<close>, returns the \<open>k\<close> nearest
  labels by ascending distance and, when fewer than \<open>k\<close> vectors are stored, fills the
  remaining slots with the label \<open>-1\<close> and the largest single-precision float as
  distance.
\<close>

definition FLT_MAX :: real where
  "FLT_MAX = 340282346638528859811704183484516925440"

definition flat_search :: "real list \<Rightarrow> nat \<Rightarrow> py_error + (int \<times> pyfloat) list" where
  "flat_search ds k =
     (if k = 0 then Inl AssertionError
      else Inr (map (\<lambda>(label, d). (label, Fin d))
                  (take k (sort_key snd (zip (map int [0..<length ds]) ds)))
                @ replicate (k - length ds) (- 1, Fin FLT_MAX)))"

text \<open>
  An argsort that keeps the input order among equal scores and puts NaN last, as
  \<open>np.argsort\<close> does on short arrays.
\<close>

definition asc_key :: "pyfloat \<Rightarrow> int \<times> real" where
  "asc_key x = (case x of NInf \<Rightarrow> (0, 0) | Fin r \<Rightarrow> (1, r) | PInf \<Rightarrow> (2, 0) | NaN \<Rightarrow> (3, 0))"

definition stable_argsort :: "pyfloat list \<Rightarrow> nat list" where
  "stable_argsort scores = sort_key (\<lambda>i. asc_key (scores ! i)) [0..<length scores]"

definition example_doc :: "string \<Rightarrow> meta" where
  "example_doc i =
     \<lparr>m_id = i, m_title = ''Title'', m_tags = [], m_type = Some ''definition'',
      m_content = ''Body'', m_source_file = ''corpus.md''\<rparr>"

text \<open>
  A knowledge base over the given documents, with the distance of each document to
  the query, its BM25 score, and the iteration order of sets.
\<close>

definition example_kb ::
  "meta list \<Rightarrow> real list \<Rightarrow> real list \<Rightarrow> (string list \<Rightarrow> string list) \<Rightarrow> kb" where
  "example_kb docs distances scores order =
     \<lparr>kb_metadata = docs, kb_search = (\<lambda>q. flat_search distances),
      kb_bm25 = (\<lambda>q. map Fin scores), kb_argsort = stable_argsort,
      kb_set_order = order, kb_sort_nan = map fst\<rparr>"

text \<open>
  Two documents: \<open>doc-a\<close> is the nearer one (distance 0.25 against 0.75) and has the
  lower BM25 score.
\<close>

definition kb_two :: kb where
  "kb_two = example_kb [example_doc ''doc-a'', example_doc ''doc-b''] [1 / 4, 3 / 4] [1, 2] rev"

text \<open>Two documents at the same distance and with the same BM25 score.\<close>

definition kb_tie :: "(string list \<Rightarrow> string list) \<Rightarrow> kb" where
  "kb_tie order = example_kb [example_doc ''doc-a'', example_doc ''doc-b''] [1 / 2, 1 / 2] [1, 1] order"

section \<open>build\_embeddings.py\<close>

subsection \<open>String methods\<close>

definition newline :: string where
  "newline = [CHR 0x0A]"

text \<open>
  \<open>str.isspace\<close> on one character, which is also the class \<open>\s\<close> of \<open>re\<close>: among the
  code points below 256 these are 9 to 13, 28 to 32, 133 and 160.
\<close>

definition is_space :: "char \<Rightarrow> bool" where
  "is_space c =
     (let n = (of_char c :: nat)
      in (9 \<le> n \<and> n \<le> 13) \<or> (28 \<le> n \<and> n \<le> 32) \<or> n = 133 \<or> n = 160)"

text \<open>\<open>s.strip()\<close>\<close>

definition py_strip :: "string \<Rightarrow> string" where
  "py_strip s = rev (dropWhile is_space (rev (dropWhile is_space s)))"

text \<open>
  \<open>s.split(sep)\<close> and \<open>re.split\<close> on a literal: the pieces between the occurrences of
  \<open>sep\<close>, found from left to right without overlap.  The separator is a non-empty
  literal at every call.
\<close>

fun py_split :: "string \<Rightarrow> string \<Rightarrow> string list" where
  "py_split sep [] = [[]]"
| "py_split sep (c # cs) =
     (if sep \<noteq> [] \<and> prefix sep (c # cs) then [] # py_split sep (drop (length sep - 1) cs)
      else (case py_split sep cs of
              [] \<Rightarrow> [[c]]
            | piece # pieces \<Rightarrow> (c # piece) # pieces))"

text \<open>\<open>s.replace(old, "")\<close>: every occurrence of \<open>old\<close> is removed, from left to right.\<close>

fun py_remove :: "string \<Rightarrow> string \<Rightarrow> string" where
  "py_remove old [] = []"
| "py_remove old (c # cs) =
     (if old \<noteq> [] \<and> prefix old (c # cs) then py_remove old (drop (length old - 1) cs)
      else c # py_remove old cs)"

text \<open>\<open>sep.join(pieces)\<close>\<close>

fun py_join :: "string \<Rightarrow> string list \<Rightarrow> string" where
  "py_join sep [] = []"
| "py_join sep [piece] = piece"
| "py_join sep (piece # next_piece # pieces) = piece @ sep @ py_join sep (next_piece # pieces)"

text \<open>\<open>sub in s\<close>\<close>

fun py_in :: "string \<Rightarrow> string \<Rightarrow> bool" where
  "py_in sub [] = (sub = [])"
| "py_in sub (c # cs) = (prefix sub (c # cs) \<or> py_in sub cs)"

text \<open>The truth value of a variable that holds \<open>None\<close> or a string.\<close>

definition truthy :: "string option \<Rightarrow> bool" where
  "truthy v = (case v of None \<Rightarrow> False | Some s \<Rightarrow> s \<noteq> [])"

subsection \<open>parse\_markdown\_corpus\<close>

text \<open>The local variables of the loop over the lines of one section.\<close>

record parse_state =
  ps_doc_id :: "string option"
  ps_tags :: "string list"
  ps_doc_type :: "string option"
  ps_content_lines :: "string list"
  ps_in_content :: bool

definition init_state :: parse_state where
  "init_state =
     \<lparr>ps_doc_id = None, ps_tags = [], ps_doc_type = None,
      ps_content_lines = [], ps_in_content = False\<rparr>"

text \<open>The body of the loop \<open>for line in lines[1:]\<close> (lines 97 to 111).\<close>

definition scan_line :: "parse_state \<Rightarrow> string \<Rightarrow> parse_state" where
  "scan_line st line =
     (if prefix ''**ID:**'' line then
        st\<lparr>ps_doc_id := Some (py_strip (py_remove ''**ID:**'' line))\<rparr>
      else if prefix ''**Tags:**'' line then
        (let tags_str = py_strip (py_remove ''**Tags:**'' line)
         in st\<lparr>ps_tags := map py_strip (py_split '','' tags_str)\<rparr>)
      else if prefix ''**Type:**'' line then
        st\<lparr>ps_doc_type := Some (py_strip (py_remove ''**Type:**'' line))\<rparr>
      else if prefix ''**Related:**'' line then st
      else
        (let st1 = (if truthy (ps_doc_id st) \<and> \<not> ps_in_content st
                    then st\<lparr>ps_in_content := True\<rparr> else st)
         in if ps_in_content st1
            then st1\<lparr>ps_content_lines := ps_content_lines st1 @ [line]\<rparr>
            else st1))"

definition scan_lines :: "string list \<Rightarrow> parse_state" where
  "scan_lines ls = foldl scan_line init_state ls"

text \<open>
  One section (lines 86 to 123): the document it yields, or \<open>None\<close> when it has no id.
  \<open>split\<close> never returns the empty list.
\<close>

definition parse_section :: "string \<Rightarrow> string \<Rightarrow> meta option" where
  "parse_section source_file section =
     (case py_split newline section of
        [] \<Rightarrow> None
      | first_line # rest \<Rightarrow>
          (let title = py_strip first_line;
               st = scan_lines rest
           in if truthy (ps_doc_id st) then
                Some \<lparr>m_id = the (ps_doc_id st), m_title = title, m_tags = ps_tags st,
                      m_type = ps_doc_type st,
                      m_content = py_strip (py_join newline (ps_content_lines st)),
                      m_source_file = source_file\<rparr>
              else None))"

text \<open>
  One file, given as its name and its text: the sections after the file header.
\<close>

definition parse_file :: "string \<times> string \<Rightarrow> meta list" where
  "parse_file f =
     List.map_filter (parse_section (fst f)) (tl (py_split (newline @ ''## '') (snd f)))"

text \<open>
  \<open>parse_markdown_corpus\<close> over the files in the order in which \<open>glob\<close> yields them.
  It returns the documents; the second component is what it prints, one line per
  file.
\<close>

definition parse_markdown_corpus :: "(string \<times> string) list \<Rightarrow> meta list \<times> string list" where
  "parse_markdown_corpus files =
     (concat (map parse_file files), map (\<lambda>f. ''Parsing '' @ fst f @ ''...'') files)"

section \<open>build\_tensors.py\<close>

definition NODE_TYPES :: "(string \<times> nat) list" where
  "NODE_TYPES =
     [(''definition'', 0), (''law'', 1), (''pattern'', 2), (''violation'', 3),
      (''fix'', 4), (''example'', 5), (''test_template'', 6)]"

definition EDGE_TYPES :: "(string \<times> nat) list" where
  "EDGE_TYPES =
     [(''defines'', 0), (''requires'', 1), (''verifies'', 2), (''violates'', 3),
      (''fixes'', 4), (''implements'', 5), (''relates_to'', 6), (''uses'', 7)]"

type_synonym edge = "string \<times> string \<times> string"

record node =
  n_id :: string
  n_type :: "string option"
  n_tags :: "string list"
  n_embedding :: "pyfloat list option"

text \<open>
  The builder: \<open>nodes\<close> is a dict (an association list in insertion order), \<open>edges\<close>
  a list of triples \<open>(src, dst, edge_type)\<close>.
\<close>

record builder =
  b_nodes :: "(string \<times> node) list"
  b_edges :: "edge list"

subsection \<open>Regular expressions\<close>

text \<open>
  The group of \<open>\s*([^\n]+)\<close> matched at the start of \<open>rest\<close>.  The greedy \<open>\s*\<close> takes
  the whole run of whitespace; when something follows, the group is the text up to
  the next newline.  When the run ends the string, \<open>\s*\<close> gives characters back until
  the group can start on a character other than newline, and the group is that one
  character; there is no match when the run holds nothing but newlines.
\<close>

definition related_group :: "string \<Rightarrow> string option" where
  "related_group rest =
     (let ws = takeWhile is_space rest;
          after = dropWhile is_space rest
      in if after \<noteq> [] then Some (takeWhile (\<lambda>c. c \<noteq> CHR 0x0A) after)
         else (case dropWhile (\<lambda>c. c = CHR 0x0A) (rev ws) of
                 [] \<Rightarrow> None
               | c # _ \<Rightarrow> Some [c]))"

text \<open>
  \<open>re.search(r"\*\*Related:\*\*\s*([^\n]+)", content)\<close>: group 1 of the leftmost match.
\<close>

fun related_search :: "string \<Rightarrow> string option" where
  "related_search [] = None"
| "related_search (c # cs) =
     (if prefix ''**Related:**'' (c # cs) then
        (case related_group (drop 11 cs) of
           Some g \<Rightarrow> Some g
         | None \<Rightarrow> related_search cs)
      else related_search cs)"

text \<open>
  The class \<open>[\w-]\<close>: alphanumeric characters, the underscore and the hyphen.  Among
  the code points below 256 the alphanumeric ones are the ASCII digits and letters,
  170, 178, 179, 181, 185, 186, 188 to 190, 192 to 214, 216 to 246 and 248 to 255.
\<close>

definition is_word_or_hyphen :: "char \<Rightarrow> bool" where
  "is_word_or_hyphen c =
     (let n = (of_char c :: nat)
      in (48 \<le> n \<and> n \<le> 57) \<or> (65 \<le> n \<and> n \<le> 90) \<or> (97 \<le> n \<and> n \<le> 122) \<or>
         n = 95 \<or> n = 45 \<or> n = 170 \<or> n = 178 \<or> n = 179 \<or> n = 181 \<or> n = 185 \<or> n = 186 \<or>
         (188 \<le> n \<and> n \<le> 190) \<or> (192 \<le> n \<and> n \<le> 214) \<or> (216 \<le> n \<and> n \<le> 246) \<or>
         (248 \<le> n \<and> n \<le> 255))"

text \<open>
  \<open>re.findall(lit + r"[\w-]+", content)\<close> for a literal \<open>lit\<close>: the matches from left to
  right, each as long as possible, the search going on behind the last match.
  \<open>skip\<close> counts the characters of the current match that are still to be passed.
\<close>

fun findall_from :: "string \<Rightarrow> nat \<Rightarrow> string \<Rightarrow> string list" where
  "findall_from lit skip [] = []"
| "findall_from lit skip (c # cs) =
     (if 0 < skip then findall_from lit (skip - 1) cs
      else if prefix lit (c # cs) \<and> takeWhile is_word_or_hyphen (drop (length lit) (c # cs)) \<noteq> []
      then (let m = lit @ takeWhile is_word_or_hyphen (drop (length lit) (c # cs))
            in m # findall_from lit (length m - 1) cs)
      else findall_from lit 0 cs)"

definition findall_role :: "string \<Rightarrow> string \<Rightarrow> string list" where
  "findall_role lit content = findall_from lit 0 content"

subsection \<open>KnowledgeGraphBuilder\<close>

text \<open>Lines 100 to 109: the \<open>relates_to\<close> edges of the "Related:" annotation.\<close>

definition related_edges :: "string \<Rightarrow> string \<Rightarrow> edge list" where
  "related_edges node_id content =
     (case related_search content of
        None \<Rightarrow> []
      | Some related_str \<Rightarrow>
          map (\<lambda>related_id. (node_id, related_id, ''relates_to''))
            (map py_strip (py_split '','' related_str)))"

text \<open>
  \<open>_extract_relationships\<close>: the edges it appends to \<open>self.edges\<close>, in order.
\<close>

definition extract_relationships :: "string \<Rightarrow> string \<Rightarrow> string \<Rightarrow> edge list" where
  "extract_relationships node_id content source_file =
     related_edges node_id content @
     (if py_in ''violation-'' node_id then
        map (\<lambda>fix_id. (node_id, fix_id, ''fixes'')) (findall_role ''fix-'' content) @
        map (\<lambda>law_id. (node_id, law_id, ''violates'')) (findall_role ''law-'' content)
      else if py_in ''pattern-'' node_id then
        map (\<lambda>def_id. (def_id, node_id, ''defines'')) (findall_role ''def-'' content) @
        map (\<lambda>example_id. (node_id, example_id, ''implements'')) (findall_role ''example-'' content)
      else if py_in ''test-'' node_id then
        map (\<lambda>pattern_id. (node_id, pattern_id, ''verifies'')) (findall_role ''pattern-'' content)
      else [])"

text \<open>
  \<open>parse_corpus\<close>, given the loaded \<open>metadata.json\<close> and the rows of \<open>embeddings.npz\<close>.
  The lookup reads row \<open>i\<close> for the \<open>i\<close>-th document, which raises when there are fewer
  rows than documents; a later document with the same id replaces the row.
\<close>

definition embedding_lookup ::
  "meta list \<Rightarrow> pyfloat list list \<Rightarrow> py_error + (string \<times> pyfloat list) list" where
  "embedding_lookup metadata embeddings =
     (if length embeddings < length metadata then Inl IndexError
      else Inr (foldl (\<lambda>d (doc, row). AList.update (m_id doc) row d) [] (zip metadata embeddings)))"

definition add_document :: "(string \<times> pyfloat list) list \<Rightarrow> builder \<Rightarrow> meta \<Rightarrow> builder" where
  "add_document lookup self doc =
     \<lparr>b_nodes = AList.update (m_id doc)
                  \<lparr>n_id = m_id doc, n_type = m_type doc, n_tags = m_tags doc,
                   n_embedding = map_of lookup (m_id doc)\<rparr>
                  (b_nodes self),
      b_edges = b_edges self @
                  extract_relationships (m_id doc) (m_content doc) (m_source_file doc)\<rparr>"

definition parse_corpus :: "builder \<Rightarrow> meta list \<Rightarrow> pyfloat list list \<Rightarrow> py_error + builder" where
  "parse_corpus self metadata embeddings =
     (case embedding_lookup metadata embeddings of
        Inl e \<Rightarrow> Inl e
      | Inr lookup \<Rightarrow> Inr (foldl (add_document lookup) self metadata))"

text \<open>
  The PyTorch Geometric \<open>Data\<close> object that \<open>build_graph\<close> returns: the feature rows,
  the edges as pairs of node indices, the type numbers of nodes and edges, and the
  id mapping.
\<close>

record graph =
  g_x :: "pyfloat list list"
  g_edge_index :: "(nat \<times> nat) list"
  g_node_type :: "nat list"
  g_edge_type :: "nat list"
  g_node_ids :: "string list"
  g_node_to_idx :: "(string \<times> nat) list"

text \<open>
  The loop over the sorted node ids (lines 161 to 164): the embedding and the type
  number of each node; a type that is not a key of \<open>NODE_TYPES\<close> raises.
\<close>

fun node_rows ::
  "(string \<times> node) list \<Rightarrow> string list \<Rightarrow> py_error + (pyfloat list option \<times> nat) list" where
  "node_rows nodes [] = Inr []"
| "node_rows nodes (node_id # rest) =
     (case map_of nodes node_id of
        None \<Rightarrow> Inl KeyError
      | Some node \<Rightarrow>
          (case (case n_type node of None \<Rightarrow> None | Some t \<Rightarrow> map_of NODE_TYPES t) of
             None \<Rightarrow> Inl KeyError
           | Some type_id \<Rightarrow>
               (case node_rows nodes rest of
                  Inl e \<Rightarrow> Inl e
                | Inr rows \<Rightarrow> Inr ((n_embedding node, type_id) # rows))))"

text \<open>
  \<open>torch.tensor(np.array(node_features), dtype=torch.float)\<close>: a missing embedding or
  rows of different lengths do not make a tensor.
\<close>

definition to_tensor :: "pyfloat list option list \<Rightarrow> py_error + pyfloat list list" where
  "to_tensor features =
     (if None \<in> set features then Inl TypeError
      else if 1 < length (remdups (map (\<lambda>row. length (the row)) features)) then Inl ValueError
      else Inr (map the features))"

text \<open>
  The loop over the edges (lines 173 to 178): an edge is kept when both ends are
  node ids, and only then is its type looked up.
\<close>

fun edge_rows :: "(string \<times> nat) list \<Rightarrow> edge list \<Rightarrow> py_error + ((nat \<times> nat) \<times> nat) list" where
  "edge_rows node_to_idx [] = Inr []"
| "edge_rows node_to_idx ((src, dst, edge_type) # rest) =
     (case (map_of node_to_idx src, map_of node_to_idx dst) of
        (Some src_idx, Some dst_idx) \<Rightarrow>
          (case map_of EDGE_TYPES edge_type of
             None \<Rightarrow> Inl KeyError
           | Some type_id \<Rightarrow>
               (case edge_rows node_to_idx rest of
                  Inl e \<Rightarrow> Inl e
                | Inr rows \<Rightarrow> Inr (((src_idx, dst_idx), type_id) # rows)))
      | _ \<Rightarrow> edge_rows node_to_idx rest)"

definition build_graph :: "builder \<Rightarrow> py_error + graph" where
  "build_graph self =
     (let node_ids = sort (map fst (b_nodes self));
          node_to_idx = zip node_ids [0..<length node_ids]
      in case node_rows (b_nodes self) node_ids of
           Inl e \<Rightarrow> Inl e
         | Inr rows \<Rightarrow>
             (case to_tensor (map fst rows) of
                Inl e \<Rightarrow> Inl e
              | Inr x \<Rightarrow>
                  (case edge_rows node_to_idx (b_edges self) of
                     Inl e \<Rightarrow> Inl e
                   | Inr es \<Rightarrow>
                       Inr \<lparr>g_x = x, g_edge_index = map fst es, g_node_type = map snd rows,
                            g_edge_type = map snd es, g_node_ids = node_ids,
                            g_node_to_idx = node_to_idx\<rparr>)))"

text \<open>
  What \<open>save_graph_tensor\<close> writes: \<open>category_graph.pt\<close> with the graph and the two
  type tables, \<open>gnn_model.pt\<close> with the model, and \<open>graph_stats.json\<close>.  The model is
  outside the repository and passed through.  The statistics read \<open>graph.x.size(1)\<close>,
  which raises when the graph has no node; the two other files are written before.
\<close>

record stats =
  s_num_nodes :: nat
  s_num_edges :: nat
  s_node_feature_dim :: nat
  s_nodes_by_type :: "(string \<times> nat) list"
  s_edges_by_type :: "(string \<times> nat) list"

record 'm artifacts =
  a_graph_file :: "graph \<times> (string \<times> nat) list \<times> (string \<times> nat) list"
  a_model_file :: 'm
  a_stats_file :: "py_error + stats"

definition graph_stats :: "graph \<Rightarrow> py_error + stats" where
  "graph_stats g =
     (case g_x g of
        [] \<Rightarrow> Inl IndexError
      | row # _ \<Rightarrow>
          Inr \<lparr>s_num_nodes = length (g_x g), s_num_edges = length (g_edge_index g),
               s_node_feature_dim = length row,
               s_nodes_by_type =
                 map (\<lambda>(name, type_id). (name, length (filter (\<lambda>t. t = type_id) (g_node_type g))))
                   NODE_TYPES,
               s_edges_by_type =
                 map (\<lambda>(name, type_id). (name, length (filter (\<lambda>t. t = type_id) (g_edge_type g))))
                   EDGE_TYPES\<rparr>)"

definition save_graph_tensor :: "graph \<Rightarrow> 'm \<Rightarrow> 'm artifacts" where
  "save_graph_tensor g model =
     \<lparr>a_graph_file = (g, NODE_TYPES, EDGE_TYPES), a_model_file = model,
      a_stats_file = graph_stats g\<rparr>"

section \<open>Example corpora\<close>


text \<open>
  One file with two sections; the first one ends with a "Related" line that lists the
  second one.
\<close>

definition corpus_related :: "(string \<times> string) list" where
  "corpus_related =
     [(''corpus.md'', py_join newline
         [''# Corpus'',
          ''## Functor'', ''**ID:** def-a'', ''**Type:** definition'', ''Body'',
          ''**Related:** def-b'',
          ''## Morphism'', ''**ID:** def-b'', ''**Type:** definition'', ''Text''])]"

definition empty_builder :: builder where
  "empty_builder = \<lparr>b_nodes = [], b_edges = []\<rparr>"

text \<open>
  The metadata of a corpus with one document, a test template whose content names a
  pattern that is not a document of the corpus.
\<close>

definition metadata_dangling :: "meta list" where
  "metadata_dangling =
     [\<lparr>m_id = ''test-compose'', m_title = ''Composition test'', m_tags = [],
        m_type = Some ''test_template'', m_content = ''checks pattern-missing'',
        m_source_file = ''corpus.md''\<rparr>]"


section \<open>Properties of build\_index.py\<close>

text \<open>
  C8.  The claim says that the IVF build uses \<open>min(100, vector_count/10)\<close> clusters and
  that this number is always at least 1.  The code computes
  \<open>min(100, vector_count // 10)\<close> with no lower bound: for five vectors it builds the
  index with zero clusters.
\<close>

theorem build_faiss_index_ivf_five_vectors:
  "build_faiss_index 5 384 ''IVF'' = Inr (IndexIVFFlat 384 0)"
  by (simp add: build_faiss_index_def)

section \<open>Properties of normalize\<close>

lemma DBL_MAX_ge_1: "1 \<le> DBL_MAX"
  by (simp add: DBL_MAX_def)

lemma DBL_MAX_less_overflow: "DBL_MAX < DBL_OVERFLOW"
  by (simp add: DBL_MAX_def DBL_OVERFLOW_def)

lemma fround_Fin: "\<bar>r\<bar> \<le> DBL_MAX \<Longrightarrow> fround r = Fin r"
  using DBL_MAX_less_overflow by (auto simp: fround_def)

lemma fsub_Fin: "\<bar>a - b\<bar> \<le> DBL_MAX \<Longrightarrow> fsub (Fin a) (Fin b) = Fin (a - b)"
  by (simp add: fsub_def fround_Fin)

lemma fdiv_Fin: "b \<noteq> 0 \<Longrightarrow> \<bar>a / b\<bar> \<le> DBL_MAX \<Longrightarrow> fdiv (Fin a) (Fin b) = Inr (Fin (a / b))"
  by (simp add: fround_Fin)

lemma fold_min_Fin:
  "\<exists>m. fold (\<lambda>item cur. if flt item cur then item else cur) (map Fin xs) (Fin x) = Fin m
       \<and> m \<in> set (x # xs) \<and> (\<forall>v \<in> set (x # xs). m \<le> v)"
proof (induction xs arbitrary: x)
  case Nil
  show ?case by simp
next
  case (Cons y ys)
  show ?case
  proof (cases "y < x")
    case True
    from Cons [of y] obtain m where
      m: "fold (\<lambda>item cur. if flt item cur then item else cur) (map Fin ys) (Fin y) = Fin m"
         "m \<in> set (y # ys)" "\<forall>v \<in> set (y # ys). m \<le> v" by blast
    from m(3) True have "m \<le> x" by auto
    with m True show ?thesis by auto
  next
    case False
    from Cons [of x] obtain m where
      m: "fold (\<lambda>item cur. if flt item cur then item else cur) (map Fin ys) (Fin x) = Fin m"
         "m \<in> set (x # ys)" "\<forall>v \<in> set (x # ys). m \<le> v" by blast
    from m(3) False have "m \<le> y" by auto
    with m False show ?thesis by auto
  qed
qed

lemma fold_max_Fin:
  "\<exists>m. fold (\<lambda>item cur. if flt cur item then item else cur) (map Fin xs) (Fin x) = Fin m
       \<and> m \<in> set (x # xs) \<and> (\<forall>v \<in> set (x # xs). v \<le> m)"
proof (induction xs arbitrary: x)
  case Nil
  show ?case by simp
next
  case (Cons y ys)
  show ?case
  proof (cases "x < y")
    case True
    from Cons [of y] obtain m where
      m: "fold (\<lambda>item cur. if flt cur item then item else cur) (map Fin ys) (Fin y) = Fin m"
         "m \<in> set (y # ys)" "\<forall>v \<in> set (y # ys). v \<le> m" by blast
    from m(3) True have "x \<le> m" by auto
    with m True show ?thesis by auto
  next
    case False
    from Cons [of x] obtain m where
      m: "fold (\<lambda>item cur. if flt cur item then item else cur) (map Fin ys) (Fin x) = Fin m"
         "m \<in> set (x # ys)" "\<forall>v \<in> set (x # ys). v \<le> m" by blast
    from m(3) False have "y \<le> m" by auto
    with m False show ?thesis by auto
  qed
qed

lemma py_min_Fin:
  assumes "rs \<noteq> []"
  shows "\<exists>m. py_min (map Fin rs) = Inr (Fin m) \<and> m \<in> set rs \<and> (\<forall>v \<in> set rs. m \<le> v)"
proof (cases rs)
  case Nil
  with assms show ?thesis by simp
next
  case (Cons x xs)
  from fold_min_Fin [of xs x] show ?thesis unfolding Cons by simp
qed

lemma py_max_Fin:
  assumes "rs \<noteq> []"
  shows "\<exists>m. py_max (map Fin rs) = Inr (Fin m) \<and> m \<in> set rs \<and> (\<forall>v \<in> set rs. v \<le> m)"
proof (cases rs)
  case Nil
  with assms show ?thesis by simp
next
  case (Cons x xs)
  from fold_max_Fin [of xs x] show ?thesis unfolding Cons by simp
qed

lemma all_Fin_map: "\<forall>v \<in> set vs. is_Fin v \<Longrightarrow> vs = map Fin (map fval vs)"
  by (induction vs) auto

lemma normalize_items_Fin:
  assumes "lo < hi" "hi - lo \<le> DBL_MAX"
    and "\<forall>v \<in> set (map snd scores). is_Fin v \<and> lo \<le> fval v \<and> fval v \<le> hi"
  shows "normalize_items (Fin lo) (Fin hi) scores =
           Inr (map (\<lambda>(k, v). (k, Fin ((fval v - lo) / (hi - lo)))) scores)"
  using assms(3)
proof (induction scores)
  case Nil
  show ?case by simp
next
  case (Cons kv rest)
  obtain k v where kv: "kv = (k, v)" by (cases kv)
  from Cons.prems kv obtain r where v: "v = Fin r" and r: "lo \<le> r" "r \<le> hi"
    by (cases v) auto
  have d: "fsub (Fin hi) (Fin lo) = Fin (hi - lo)"
    using assms by (intro fsub_Fin) simp
  have n: "fsub (Fin r) (Fin lo) = Fin (r - lo)"
    using assms r by (intro fsub_Fin) simp
  have q0: "0 \<le> (r - lo) / (hi - lo)" using assms r by simp
  have q1: "(r - lo) / (hi - lo) \<le> 1" using assms r by (simp add: divide_le_eq)
  have q: "fdiv (Fin (r - lo)) (Fin (hi - lo)) = Inr (Fin ((r - lo) / (hi - lo)))"
  proof (rule fdiv_Fin)
    show "hi - lo \<noteq> 0" using assms by simp
    have "\<bar>(r - lo) / (hi - lo)\<bar> = (r - lo) / (hi - lo)" using q0 by (rule abs_of_nonneg)
    with q1 have "\<bar>(r - lo) / (hi - lo)\<bar> \<le> 1" by (simp only:)
    then show "\<bar>(r - lo) / (hi - lo)\<bar> \<le> DBL_MAX" using DBL_MAX_ge_1 by simp
  qed
  have rest: "normalize_items (Fin lo) (Fin hi) rest =
           Inr (map (\<lambda>(k, v). (k, Fin ((fval v - lo) / (hi - lo)))) rest)"
    using Cons by simp
  show ?case unfolding kv v by (simp add: d n q rest del: fdiv.simps)
qed

text \<open>
  C7, counterexample.  The claim gives every normalized score a value in \<open>[0, 1]\<close> and
  excludes NaN.  For the three finite scores \<open>-1e308\<close>, \<open>0.0\<close> and \<open>1e308\<close> the spread
  \<open>max - min\<close> overflows to infinity: the first two scores normalize to \<open>0.0\<close> and the
  largest one, infinity over infinity, to NaN.
\<close>

theorem normalize_overflow_gives_nan: "normalize [(''a'', Fin (- (10 ^ 308))), (''b'', Fin 0), (''c'', Fin (10 ^ 308))]
   = Inr [(''a'', Fin 0), (''b'', Fin 0), (''c'', NaN)]"
  by (simp add: normalize_def feq_def fsub_def fround_def DBL_OVERFLOW_def)

text \<open>
  C7, amended.  On a non-empty score mapping whose scores are all finite and no two of
  which are further apart than the largest double, \<open>normalize\<close> returns, keeps the
  keys, and every value is a finite number in \<open>[0, 1]\<close>, so none is NaN; when all input
  scores are equal, which includes the single-document case, every value is exactly
  \<open>0.5\<close>.
\<close>

theorem normalize_range_finite:
  assumes ne: "scores \<noteq> []"
    and fin: "\<forall>v \<in> set (map snd scores). is_Fin v"
    and spread: "\<forall>v \<in> set (map snd scores). \<forall>w \<in> set (map snd scores). fval v - fval w \<le> DBL_MAX"
  shows "\<exists>r. normalize scores = Inr r \<and> map fst r = map fst scores \<and>
             (\<forall>v \<in> set (map snd r). is_Fin v \<and> 0 \<le> fval v \<and> fval v \<le> 1) \<and>
             ((\<forall>v \<in> set (map snd scores). \<forall>w \<in> set (map snd scores). v = w)
                \<longrightarrow> (\<forall>v \<in> set (map snd r). v = Fin (1 / 2)))"
proof -
  let ?vs = "map snd scores"
  let ?rs = "map fval ?vs"
  have vs: "?vs = map Fin ?rs" using fin by (rule all_Fin_map)
  have rne: "?rs \<noteq> []" using ne by simp
  from py_min_Fin [OF rne] obtain lo where
    lo: "py_min ?vs = Inr (Fin lo)" "lo \<in> set ?rs" "\<forall>v \<in> set ?rs. lo \<le> v"
    using vs by metis
  from py_max_Fin [OF rne] obtain hi where
    hi: "py_max ?vs = Inr (Fin hi)" "hi \<in> set ?rs" "\<forall>v \<in> set ?rs. v \<le> hi"
    using vs by metis
  have lo_in: "Fin lo \<in> set ?vs"
  proof -
    have "Fin lo \<in> Fin ` set ?rs" using lo(2) by (rule imageI)
    then have "Fin lo \<in> set (map Fin ?rs)" by (simp only: set_map)
    then show ?thesis by (simp only: vs [symmetric])
  qed
  have hi_in: "Fin hi \<in> set ?vs"
  proof -
    have "Fin hi \<in> Fin ` set ?rs" using hi(2) by (rule imageI)
    then have "Fin hi \<in> set (map Fin ?rs)" by (simp only: set_map)
    then show ?thesis by (simp only: vs [symmetric])
  qed
  show ?thesis
  proof (cases "hi = lo")
    case True
    let ?r = "map (\<lambda>(k, v). (k, Fin (1 / 2))) scores"
    have eq: "normalize scores = Inr ?r"
      unfolding normalize_def Let_def lo(1) hi(1) using True by (simp add: feq_def)
    have fst: "map fst ?r = map fst scores" by (induction scores) auto
    have snd: "v = Fin (1 / 2)" if "v \<in> set (map snd ?r)" for v
      using that by (induction scores) auto
    show ?thesis
    proof (intro exI conjI)
      show "normalize scores = Inr ?r" by (rule eq)
      show "map fst ?r = map fst scores" by (rule fst)
      show "\<forall>v \<in> set (map snd ?r). is_Fin v \<and> 0 \<le> fval v \<and> fval v \<le> 1"
      proof
        fix v assume "v \<in> set (map snd ?r)"
        then have "v = Fin (1 / 2)" by (rule snd)
        then show "is_Fin v \<and> 0 \<le> fval v \<and> fval v \<le> 1" by simp
      qed
      show "(\<forall>v \<in> set ?vs. \<forall>w \<in> set ?vs. v = w) \<longrightarrow> (\<forall>v \<in> set (map snd ?r). v = Fin (1 / 2))"
        using snd by blast
    qed
  next
    case False
    have "lo \<le> hi" using lo(3) hi(2) by blast
    with False have lt: "lo < hi" by simp
    have sp: "hi - lo \<le> DBL_MAX" using spread hi_in lo_in by fastforce
    let ?g = "\<lambda>v. Fin ((fval v - lo) / (hi - lo))"
    let ?r = "map (\<lambda>(k, v). (k, ?g v)) scores"
    have bounds: "\<forall>v \<in> set ?vs. is_Fin v \<and> lo \<le> fval v \<and> fval v \<le> hi"
      using fin lo(3) hi(3) by simp
    have items: "normalize_items (Fin lo) (Fin hi) scores = Inr ?r"
      using lt sp bounds by (rule normalize_items_Fin)
    have eq: "normalize scores = Inr ?r"
      unfolding normalize_def Let_def lo(1) hi(1) using False by (simp add: feq_def items)
    have fst: "map fst ?r = map fst scores" by (induction scores) auto
    have snd: "map snd ?r = map ?g ?vs" by (induction scores) auto
    have rng: "0 \<le> (fval v - lo) / (hi - lo) \<and> (fval v - lo) / (hi - lo) \<le> 1"
      if "v \<in> set ?vs" for v
    proof -
      from bounds that have lh: "lo \<le> fval v \<and> fval v \<le> hi" by blast
      have a: "0 \<le> fval v - lo" using lh by simp
      have b: "fval v - lo \<le> hi - lo" using lh by simp
      have c: "0 < hi - lo" using lt by simp
      from a c have "0 \<le> (fval v - lo) / (hi - lo)" by simp
      moreover from b c have "(fval v - lo) / (hi - lo) \<le> 1" by (simp add: divide_le_eq)
      ultimately show ?thesis by simp
    qed
    have neq: "\<not> (\<forall>v \<in> set ?vs. \<forall>w \<in> set ?vs. v = w)"
    proof
      assume "\<forall>v \<in> set ?vs. \<forall>w \<in> set ?vs. v = w"
      with lo_in hi_in have "Fin lo = Fin hi" by blast
      with False show False by simp
    qed
    show ?thesis
    proof (intro exI conjI)
      show "normalize scores = Inr ?r" by (rule eq)
      show "map fst ?r = map fst scores" by (rule fst)
      show "\<forall>v \<in> set (map snd ?r). is_Fin v \<and> 0 \<le> fval v \<and> fval v \<le> 1"
        unfolding snd using rng by auto
      show "(\<forall>v \<in> set ?vs. \<forall>w \<in> set ?vs. v = w) \<longrightarrow> (\<forall>v \<in> set (map snd ?r). v = Fin (1 / 2))"
        using neq by blast
    qed
  qed
qed

text \<open>
  Two documents with scores \<open>0.25\<close> and \<open>1.0\<close> normalize to \<open>0.0\<close> and \<open>1.0\<close>; a single
  document normalizes to \<open>0.5\<close>.
\<close>

theorem normalize_range_finite_witness:
  "normalize [(''doc-a'', Fin (1 / 4)), (''doc-b'', Fin 1)] =
     Inr [(''doc-a'', Fin 0), (''doc-b'', Fin 1)] \<and>
   normalize [(''doc-a'', Fin 2)] = Inr [(''doc-a'', Fin (1 / 2))]"
proof -
  let ?s = "[(''doc-a'', Fin (1 / 4)), (''doc-b'', Fin 1)]"
  have h1: "?s \<noteq> []" by simp
  have h2: "\<forall>v \<in> set (map snd ?s). is_Fin v" by simp
  have h3: "\<forall>v \<in> set (map snd ?s). \<forall>w \<in> set (map snd ?s). fval v - fval w \<le> DBL_MAX"
    by (simp add: DBL_MAX_def)
  from normalize_range_finite [OF h1 h2 h3] obtain r where
    r1: "normalize ?s = Inr r" and
    r2: "\<forall>v \<in> set (map snd r). is_Fin v \<and> 0 \<le> fval v \<and> fval v \<le> 1"
    by blast
  have e: "normalize ?s = Inr [(''doc-a'', Fin 0), (''doc-b'', Fin 1)]"
    by (simp add: normalize_def feq_def fsub_def fround_def DBL_OVERFLOW_def)
  let ?t = "[(''doc-a'', Fin 2)]"
  have g1: "?t \<noteq> []" by simp
  have g2: "\<forall>v \<in> set (map snd ?t). is_Fin v" by simp
  have g3: "\<forall>v \<in> set (map snd ?t). \<forall>w \<in> set (map snd ?t). fval v - fval w \<le> DBL_MAX"
    by (simp add: DBL_MAX_def)
  have alleq: "\<forall>v \<in> set (map snd ?t). \<forall>w \<in> set (map snd ?t). v = w" by simp
  from normalize_range_finite [OF g1 g2 g3] obtain q where
    q1: "normalize ?t = Inr q" and
    q2: "map fst q = map fst ?t" and
    q3: "(\<forall>v \<in> set (map snd ?t). \<forall>w \<in> set (map snd ?t). v = w)
           \<longrightarrow> (\<forall>v \<in> set (map snd q). v = Fin (1 / 2))"
    by blast
  from q3 alleq have q4: "\<forall>v \<in> set (map snd q). v = Fin (1 / 2)" by blast
  from q2 obtain x where qx: "q = [(''doc-a'', x)]" by (cases q) auto
  with q4 have "q = [(''doc-a'', Fin (1 / 2))]" by simp
  with q1 e show ?thesis by simp
qed


section \<open>Properties of query\_rag.py\<close>

lemma flat_search_one: "flat_search [1 / 4] 2 = Inr [(0, Fin (1 / 4)), (- 1, Fin FLT_MAX)]"
  by (simp add: flat_search_def)

text \<open>
  C5.  The claim says that a semantic query for more results than the index holds
  vectors returns one result per indexed document.  With one indexed document and
  \<open>top_k = 2\<close> the index pads its answer with the label \<open>-1\<close>, which
  \<open>self.metadata[idx]\<close> reads as the last document: the query returns two rows, both
  for \<open>doc-a\<close>, the second with the padding distance as score.
\<close>

theorem query_semantic_pads_beyond_index:
  "query_semantic (example_kb [example_doc ''doc-a''] [1 / 4] [0] rev) ''q'' 2 =
     Inr [mk_result (example_doc ''doc-a'') (Fin (1 / 4)) ''semantic'',
          mk_result (example_doc ''doc-a'') (Fin FLT_MAX) ''semantic'']"
  by (simp add: query_semantic_def example_kb_def flat_search_one py_get_def)

lemma flat_search_two: "flat_search [1 / 4, 3 / 4] 2 = Inr [(0, Fin (1 / 4)), (1, Fin (3 / 4))]"
  by (simp add: flat_search_def upt_rec)

lemma stable_argsort_two: "stable_argsort [Fin 1, Fin 2] = [0, 1]"
  by (simp add: stable_argsort_def asc_key_def upt_rec)

lemma kb_two_metadata: "kb_metadata kb_two = [example_doc ''doc-a'', example_doc ''doc-b'']"
  by (simp add: kb_two_def example_kb_def)

lemma kb_two_semantic: "query_semantic kb_two ''q'' 2
   = Inr [mk_result (example_doc ''doc-a'') (Fin (1 / 4)) ''semantic'',
          mk_result (example_doc ''doc-b'') (Fin (3 / 4)) ''semantic'']"
  by (simp add: kb_two_def query_semantic_def example_kb_def flat_search_two py_get_def)

lemma kb_two_keyword: "query_keyword kb_two ''q'' 2
   = Inr [mk_result (example_doc ''doc-b'') (Fin 2) ''keyword'',
          mk_result (example_doc ''doc-a'') (Fin 1) ''keyword'']"
  by (simp add: kb_two_def query_keyword_def example_kb_def stable_argsort_two py_get_def py_last_k_def)

lemma kb_two_semantic_scores:
  "score_dict [mk_result (example_doc ''doc-a'') (Fin (1 / 4)) ''semantic'',
               mk_result (example_doc ''doc-b'') (Fin (3 / 4)) ''semantic'']
   = [(''doc-a'', Fin (1 / 4)), (''doc-b'', Fin (3 / 4))]"
  by (simp add: score_dict_def mk_result_def example_doc_def)

lemma kb_two_keyword_scores:
  "score_dict [mk_result (example_doc ''doc-b'') (Fin 2) ''keyword'',
               mk_result (example_doc ''doc-a'') (Fin 1) ''keyword'']
   = [(''doc-b'', Fin 2), (''doc-a'', Fin 1)]"
  by (simp add: score_dict_def mk_result_def example_doc_def)

lemma kb_two_semantic_norm:
  "normalize [(''doc-a'', Fin (1 / 4)), (''doc-b'', Fin (3 / 4))] = Inr [(''doc-a'', Fin 0), (''doc-b'', Fin 1)]"
  by (simp add: normalize_def feq_def fsub_def fround_def DBL_OVERFLOW_def)

lemma kb_two_keyword_norm:
  "normalize [(''doc-b'', Fin 2), (''doc-a'', Fin 1)] = Inr [(''doc-b'', Fin 1), (''doc-a'', Fin 0)]"
  by (simp add: normalize_def feq_def fsub_def fround_def DBL_OVERFLOW_def)

lemma kb_two_norms:
  "hybrid_norms kb_two ''q'' =
     Inr ([(''doc-a'', Fin 0), (''doc-b'', Fin 1)], [(''doc-b'', Fin 1), (''doc-a'', Fin 0)])"
proof -
  have len: "length (kb_metadata kb_two) = 2" by (simp add: kb_two_metadata)
  show ?thesis
    unfolding hybrid_norms_def len kb_two_semantic kb_two_keyword
    by (simp add: kb_two_semantic_scores kb_two_keyword_scores kb_two_semantic_norm kb_two_keyword_norm)
qed

lemma kb_two_combined:
  "combined_score (Fin 1) [(''doc-a'', Fin 0), (''doc-b'', Fin 1)] [(''doc-b'', Fin 1), (''doc-a'', Fin 0)] ''doc-a'' = Fin 0"
  "combined_score (Fin 1) [(''doc-a'', Fin 0), (''doc-b'', Fin 1)] [(''doc-b'', Fin 1), (''doc-a'', Fin 0)] ''doc-b'' = Fin 1"
  by (simp_all add: combined_score_def get_or_zero_def fsub_def fround_def DBL_OVERFLOW_def)

lemma kb_two_top:
  "top_doc_ids kb_two (Fin 1) 2
     [(''doc-a'', Fin 0), (''doc-b'', Fin 1)] [(''doc-b'', Fin 1), (''doc-a'', Fin 0)] = [''doc-b'', ''doc-a'']"
  by (simp add: kb_two_def top_doc_ids_def all_doc_ids_def example_kb_def sorted_desc_def
      kb_two_combined desc_key_def)

text \<open>
  C1.  The claim says that the hybrid query with \<open>alpha = 1.0\<close> ranks as the semantic
  query does.  The semantic query returns ascending distances; the hybrid query
  normalizes the distances and sorts the combined score in descending order, so
  with \<open>alpha = 1.0\<close> the farthest document comes first.  For two documents at
  distances 0.25 and 0.75 the semantic ranking is \<open>doc-a, doc-b\<close> and the hybrid ranking
  is \<open>doc-b, doc-a\<close>.
\<close>

theorem hybrid_alpha_one_reverses_semantic:
  "map_sum id ranking (query_semantic kb_two ''q'' 2) = Inr [''doc-a'', ''doc-b''] \<and>
   map_sum id ranking (query_hybrid kb_two ''q'' 2 (Fin 1)) = Inr [''doc-b'', ''doc-a'']"
proof
  show "map_sum id ranking (query_semantic kb_two ''q'' 2) = Inr [''doc-a'', ''doc-b'']"
    by (simp add: kb_two_semantic ranking_def mk_result_def example_doc_def)
  have "query_hybrid kb_two ''q'' 2 (Fin 1) =
     Inr (hybrid_rows [example_doc ''doc-a'', example_doc ''doc-b'']
            (combined_score (Fin 1) [(''doc-a'', Fin 0), (''doc-b'', Fin 1)] [(''doc-b'', Fin 1), (''doc-a'', Fin 0)])
            [(''doc-a'', Fin 0), (''doc-b'', Fin 1)] [(''doc-b'', Fin 1), (''doc-a'', Fin 0)] [''doc-b'', ''doc-a''])"
    unfolding query_hybrid_def kb_two_norms by (simp add: kb_two_top kb_two_metadata)
  then show "map_sum id ranking (query_hybrid kb_two ''q'' 2 (Fin 1)) = Inr [''doc-b'', ''doc-a'']"
    by (simp add: ranking_def example_doc_def)
qed


lemma hybrid_rows_pairs:
  "map (\<lambda>r. (m_id (r_doc r), r_score r)) (hybrid_rows md f sn kn ids) =
   map (\<lambda>i. (i, f i)) (filter (\<lambda>i. find (\<lambda>d. m_id d = i) md \<noteq> None) ids)"
proof (induction ids)
  case Nil
  show ?case by simp
next
  case (Cons i ids)
  show ?case
  proof (cases "find (\<lambda>d. m_id d = i) md")
    case None
    then show ?thesis using Cons by simp
  next
    case (Some doc)
    then have "m_id doc = i" by (auto simp: find_Some_iff)
    then show ?thesis using Cons Some by simp
  qed
qed

lemma desc_key_inj: "desc_key x = desc_key y \<longleftrightarrow> x = y"
  by (cases x; cases y) (simp_all add: desc_key_def)

lemma sorted_desc_stable:
  assumes "NaN \<notin> set (map f xs)"
  shows "filter (\<lambda>x. f x = s) (sorted_desc self f xs) = filter (\<lambda>x. f x = s) xs"
proof -
  have "filter (\<lambda>x. desc_key (f x) = desc_key s) (sort_key (\<lambda>x. desc_key (f x)) xs)
          = filter (\<lambda>x. desc_key (f x) = desc_key s) xs"
    by (rule sort_key_stable)
  then show ?thesis using assms by (simp add: sorted_desc_def desc_key_inj)
qed

lemma subseq_pair_nth:
  assumes "i < j" "j < length xs"
  shows "subseq [xs ! i, xs ! j] xs"
proof -
  have "xs = take i xs @ xs ! i # drop (Suc i) xs"
    using assms by (simp add: id_take_nth_drop)
  moreover have "xs ! j \<in> set (drop (Suc i) xs)"
  proof -
    have "drop (Suc i) xs ! (j - Suc i) = xs ! j" using assms by simp
    moreover have "j - Suc i < length (drop (Suc i) xs)" using assms by simp
    ultimately show ?thesis by (metis nth_mem)
  qed
  then have "subseq [xs ! j] (drop (Suc i) xs)" by (simp add: subseq_singleton_left)
  then have "subseq (xs ! i # [xs ! j]) (xs ! i # drop (Suc i) xs)" by (rule subseq_Cons2)
  then have "subseq [xs ! i, xs ! j] (take i xs @ xs ! i # drop (Suc i) xs)"
    by (rule subseq_drop_many)
  ultimately show ?thesis by simp
qed

lemma tie_order:
  assumes L: "L = filter P (take k (sorted_desc self f ids))"
    and nonan: "NaN \<notin> set (map f ids)"
    and ij: "i < j" "j < length L" and eq: "f (L ! i) = f (L ! j)"
  shows "subseq [L ! i, L ! j] ids"
proof -
  let ?Q = "\<lambda>x. f x = f (L ! j)"
  have "subseq [L ! i, L ! j] L" using ij by (rule subseq_pair_nth)
  then have "subseq (filter ?Q [L ! i, L ! j]) (filter ?Q L)" by (rule subseq_filter)
  then have a: "subseq [L ! i, L ! j] (filter ?Q L)" using eq by simp
  have "subseq L (take k (sorted_desc self f ids))" unfolding L by (rule subseq_filter_left)
  moreover have "subseq (take k (sorted_desc self f ids)) (sorted_desc self f ids)"
    by (rule prefix_imp_subseq) (rule take_is_prefix)
  ultimately have "subseq L (sorted_desc self f ids)" by (rule subseq_order.order_trans)
  then have "subseq (filter ?Q L) (filter ?Q (sorted_desc self f ids))" by (rule subseq_filter)
  then have "subseq (filter ?Q L) (filter ?Q ids)"
    by (simp only: sorted_desc_stable [OF nonan])
  moreover have "subseq (filter ?Q ids) ids" by (rule subseq_filter_left)
  ultimately have "subseq (filter ?Q L) ids" by (rule subseq_order.order_trans)
  with a show ?thesis by (rule subseq_order.order_trans)
qed

lemma kb_tie_metadata: "kb_metadata (kb_tie order) = [example_doc ''doc-a'', example_doc ''doc-b'']"
  by (simp add: kb_tie_def example_kb_def)

lemma flat_search_tie: "flat_search [1 / 2, 1 / 2] 2 = Inr [(0, Fin (1 / 2)), (1, Fin (1 / 2))]"
  by (simp add: flat_search_def upt_rec)

lemma stable_argsort_tie: "stable_argsort [Fin 1, Fin 1] = [0, 1]"
  by (simp add: stable_argsort_def asc_key_def upt_rec)

lemma kb_tie_semantic: "query_semantic (kb_tie order) ''q'' 2
   = Inr [mk_result (example_doc ''doc-a'') (Fin (1 / 2)) ''semantic'',
          mk_result (example_doc ''doc-b'') (Fin (1 / 2)) ''semantic'']"
  by (simp add: kb_tie_def query_semantic_def example_kb_def flat_search_tie py_get_def)

lemma kb_tie_keyword: "query_keyword (kb_tie order) ''q'' 2
   = Inr [mk_result (example_doc ''doc-b'') (Fin 1) ''keyword'',
          mk_result (example_doc ''doc-a'') (Fin 1) ''keyword'']"
  by (simp add: kb_tie_def query_keyword_def example_kb_def stable_argsort_tie py_get_def py_last_k_def)

lemma kb_tie_norms: "hybrid_norms (kb_tie order) ''q'' =
   Inr ([(''doc-a'', Fin (1 / 2)), (''doc-b'', Fin (1 / 2))],
        [(''doc-b'', Fin (1 / 2)), (''doc-a'', Fin (1 / 2))])"
proof -
  have len: "length (kb_metadata (kb_tie order)) = 2" by (simp add: kb_tie_metadata)
  have s: "score_dict [mk_result (example_doc ''doc-a'') (Fin (1 / 2)) ''semantic'',
                       mk_result (example_doc ''doc-b'') (Fin (1 / 2)) ''semantic'']
     = [(''doc-a'', Fin (1 / 2)), (''doc-b'', Fin (1 / 2))]"
    by (simp add: score_dict_def mk_result_def example_doc_def)
  have k: "score_dict [mk_result (example_doc ''doc-b'') (Fin 1) ''keyword'',
                       mk_result (example_doc ''doc-a'') (Fin 1) ''keyword'']
     = [(''doc-b'', Fin 1), (''doc-a'', Fin 1)]"
    by (simp add: score_dict_def mk_result_def example_doc_def)
  have ns: "normalize [(''doc-a'', Fin (1 / 2)), (''doc-b'', Fin (1 / 2))]
     = Inr [(''doc-a'', Fin (1 / 2)), (''doc-b'', Fin (1 / 2))]"
    by (simp add: normalize_def feq_def)
  have nk: "normalize [(''doc-b'', Fin 1), (''doc-a'', Fin 1)]
     = Inr [(''doc-b'', Fin (1 / 2)), (''doc-a'', Fin (1 / 2))]"
    by (simp add: normalize_def feq_def)
  show ?thesis unfolding hybrid_norms_def len kb_tie_semantic kb_tie_keyword by (simp add: s k ns nk)
qed

lemma kb_tie_ids:
  "all_doc_ids (kb_tie order) [(''doc-a'', Fin (1 / 2)), (''doc-b'', Fin (1 / 2))]
        [(''doc-b'', Fin (1 / 2)), (''doc-a'', Fin (1 / 2))] = order [''doc-b'', ''doc-a'']"
  by (simp add: all_doc_ids_def kb_tie_def example_kb_def)

lemma kb_tie_combined:
  "combined_score (Fin (1 / 2)) [(''doc-a'', Fin (1 / 2)), (''doc-b'', Fin (1 / 2))]
        [(''doc-b'', Fin (1 / 2)), (''doc-a'', Fin (1 / 2))] ''doc-a'' = Fin (1 / 2)"
  "combined_score (Fin (1 / 2)) [(''doc-a'', Fin (1 / 2)), (''doc-b'', Fin (1 / 2))]
        [(''doc-b'', Fin (1 / 2)), (''doc-a'', Fin (1 / 2))] ''doc-b'' = Fin (1 / 2)"
  by (simp_all add: combined_score_def get_or_zero_def fsub_def fround_def DBL_OVERFLOW_def)

lemma kb_tie_hybrid_ba:
  "query_hybrid (kb_tie (\<lambda>ids. ids)) ''q'' 2 (Fin (1 / 2)) =
     Inr [\<lparr>r_doc = example_doc ''doc-b'', r_score = Fin (1 / 2), r_search_type = ''hybrid'',
            r_semantic_score = Some (Fin (1 / 2)), r_keyword_score = Some (Fin (1 / 2))\<rparr>,
          \<lparr>r_doc = example_doc ''doc-a'', r_score = Fin (1 / 2), r_search_type = ''hybrid'',
            r_semantic_score = Some (Fin (1 / 2)), r_keyword_score = Some (Fin (1 / 2))\<rparr>]"
proof -
  let ?sn = "[(''doc-a'', Fin (1 / 2)), (''doc-b'', Fin (1 / 2))]"
  let ?kn = "[(''doc-b'', Fin (1 / 2)), (''doc-a'', Fin (1 / 2))]"
  let ?f = "combined_score (Fin (1 / 2)) ?sn ?kn"
  have top: "top_doc_ids (kb_tie (\<lambda>ids. ids)) (Fin (1 / 2)) 2 ?sn ?kn = [''doc-b'', ''doc-a'']"
    unfolding top_doc_ids_def kb_tie_ids by (simp add: sorted_desc_def kb_tie_combined)
  have rows: "hybrid_rows [example_doc ''doc-a'', example_doc ''doc-b''] ?f ?sn ?kn [''doc-b'', ''doc-a''] =
     [\<lparr>r_doc = example_doc ''doc-b'', r_score = Fin (1 / 2), r_search_type = ''hybrid'',
            r_semantic_score = Some (Fin (1 / 2)), r_keyword_score = Some (Fin (1 / 2))\<rparr>,
          \<lparr>r_doc = example_doc ''doc-a'', r_score = Fin (1 / 2), r_search_type = ''hybrid'',
            r_semantic_score = Some (Fin (1 / 2)), r_keyword_score = Some (Fin (1 / 2))\<rparr>]"
    unfolding example_doc_def by (simp add: kb_tie_combined get_or_zero_def)
  show ?thesis unfolding query_hybrid_def kb_tie_norms by (simp add: top rows kb_tie_metadata del: hybrid_rows.simps)
qed

lemma kb_tie_hybrid_ab:
  "query_hybrid (kb_tie rev) ''q'' 2 (Fin (1 / 2)) =
     Inr [\<lparr>r_doc = example_doc ''doc-a'', r_score = Fin (1 / 2), r_search_type = ''hybrid'',
            r_semantic_score = Some (Fin (1 / 2)), r_keyword_score = Some (Fin (1 / 2))\<rparr>,
          \<lparr>r_doc = example_doc ''doc-b'', r_score = Fin (1 / 2), r_search_type = ''hybrid'',
            r_semantic_score = Some (Fin (1 / 2)), r_keyword_score = Some (Fin (1 / 2))\<rparr>]"
proof -
  let ?sn = "[(''doc-a'', Fin (1 / 2)), (''doc-b'', Fin (1 / 2))]"
  let ?kn = "[(''doc-b'', Fin (1 / 2)), (''doc-a'', Fin (1 / 2))]"
  let ?f = "combined_score (Fin (1 / 2)) ?sn ?kn"
  have top: "top_doc_ids (kb_tie rev) (Fin (1 / 2)) 2 ?sn ?kn = [''doc-a'', ''doc-b'']"
    unfolding top_doc_ids_def kb_tie_ids by (simp add: sorted_desc_def kb_tie_combined)
  have rows: "hybrid_rows [example_doc ''doc-a'', example_doc ''doc-b''] ?f ?sn ?kn [''doc-a'', ''doc-b''] =
     [\<lparr>r_doc = example_doc ''doc-a'', r_score = Fin (1 / 2), r_search_type = ''hybrid'',
            r_semantic_score = Some (Fin (1 / 2)), r_keyword_score = Some (Fin (1 / 2))\<rparr>,
          \<lparr>r_doc = example_doc ''doc-b'', r_score = Fin (1 / 2), r_search_type = ''hybrid'',
            r_semantic_score = Some (Fin (1 / 2)), r_keyword_score = Some (Fin (1 / 2))\<rparr>]"
    unfolding example_doc_def by (simp add: kb_tie_combined get_or_zero_def)
  show ?thesis unfolding query_hybrid_def kb_tie_norms by (simp add: top rows kb_tie_metadata del: hybrid_rows.simps)
qed

text \<open>
  C4, counterexample.  The claim orders documents of equal combined score by ascending
  \<open>doc_id\<close>.  Two documents with equal distances and equal BM25 scores both get the
  combined score 0.5; when the set of ids iterates as \<open>doc-b, doc-a\<close> the result lists
  \<open>doc-b\<close> before \<open>doc-a\<close>, although \<open>doc-a\<close> is the smaller id.
\<close>

theorem hybrid_ties_not_by_doc_id:
  "map_sum id (map (\<lambda>r. (m_id (r_doc r), r_score r)))
      (query_hybrid (kb_tie (\<lambda>ids. ids)) ''q'' 2 (Fin (1 / 2)))
     = Inr [(''doc-b'', Fin (1 / 2)), (''doc-a'', Fin (1 / 2))] \<and> ''doc-a'' < ''doc-b''"
proof
  show "''doc-a'' < ''doc-b''" by (simp add: less_char_def)
  have "query_hybrid (kb_tie (\<lambda>ids. ids)) ''q'' 2 (Fin (1 / 2)) =
     Inr [\<lparr>r_doc = example_doc ''doc-b'', r_score = Fin (1 / 2), r_search_type = ''hybrid'',
            r_semantic_score = Some (Fin (1 / 2)), r_keyword_score = Some (Fin (1 / 2))\<rparr>,
          \<lparr>r_doc = example_doc ''doc-a'', r_score = Fin (1 / 2), r_search_type = ''hybrid'',
            r_semantic_score = Some (Fin (1 / 2)), r_keyword_score = Some (Fin (1 / 2))\<rparr>]"
    by (rule kb_tie_hybrid_ba)
  then show "map_sum id (map (\<lambda>r. (m_id (r_doc r), r_score r)))
      (query_hybrid (kb_tie (\<lambda>ids. ids)) ''q'' 2 (Fin (1 / 2)))
     = Inr [(''doc-b'', Fin (1 / 2)), (''doc-a'', Fin (1 / 2))]"
    by (simp add: example_doc_def)
qed

text \<open>
  C4, amended.  When the hybrid query gets as far as the two normalized score dicts
  and no combined score is NaN, it returns, and any two result rows with equal
  combined score stand in the order in which their ids occur in the iteration of the
  set of all ids: the sort is stable and compares nothing but the combined scores.
\<close>

theorem hybrid_ties_follow_set_order:
  assumes norms: "hybrid_norms self query = Inr (semantic_norm, keyword_norm)"
    and nonan: "NaN \<notin> set (map (combined_score alpha semantic_norm keyword_norm)
                              (all_doc_ids self semantic_norm keyword_norm))"
  shows "\<exists>rs. query_hybrid self query top_k alpha = Inr rs \<and>
           (\<forall>i j. i < j \<and> j < length rs \<and> r_score (rs ! i) = r_score (rs ! j) \<longrightarrow>
              subseq [m_id (r_doc (rs ! i)), m_id (r_doc (rs ! j))]
                     (all_doc_ids self semantic_norm keyword_norm))"
proof -
  let ?f = "combined_score alpha semantic_norm keyword_norm"
  let ?ids = "all_doc_ids self semantic_norm keyword_norm"
  let ?P = "\<lambda>i. find (\<lambda>d. m_id d = i) (kb_metadata self) \<noteq> None"
  let ?L = "filter ?P (take top_k (sorted_desc self ?f ?ids))"
  let ?rs = "hybrid_rows (kb_metadata self) ?f semantic_norm keyword_norm
               (top_doc_ids self alpha top_k semantic_norm keyword_norm)"
  have q: "query_hybrid self query top_k alpha = Inr ?rs"
    by (simp add: query_hybrid_def norms)
  have pairs: "map (\<lambda>r. (m_id (r_doc r), r_score r)) ?rs = map (\<lambda>i. (i, ?f i)) ?L"
    unfolding top_doc_ids_def by (rule hybrid_rows_pairs)
  have len: "length ?rs = length ?L"
    using arg_cong [OF pairs, of length] by simp
  have row: "m_id (r_doc (?rs ! n)) = ?L ! n \<and> r_score (?rs ! n) = ?f (?L ! n)"
    if "n < length ?rs" for n
  proof -
    have "map (\<lambda>r. (m_id (r_doc r), r_score r)) ?rs ! n = map (\<lambda>i. (i, ?f i)) ?L ! n"
      by (simp only: pairs)
    then show ?thesis using that len by simp
  qed
  have "subseq [m_id (r_doc (?rs ! i)), m_id (r_doc (?rs ! j))] ?ids"
    if ij: "i < j" "j < length ?rs" and eq: "r_score (?rs ! i) = r_score (?rs ! j)" for i j
  proof -
    have i: "i < length ?rs" using ij by simp
    have "?f (?L ! i) = ?f (?L ! j)" using eq row [OF i] row [OF ij(2)] by simp
    moreover have "j < length ?L" using ij(2) len by simp
    ultimately have "subseq [?L ! i, ?L ! j] ?ids"
      using tie_order [OF refl nonan ij(1)] by blast
    then show ?thesis using row [OF i] row [OF ij(2)] by simp
  qed
  with q show ?thesis by blast
qed

text \<open>
  The two tied documents again, now with a set that iterates as \<open>doc-a, doc-b\<close>: the
  result lists them in that order.
\<close>

theorem hybrid_ties_follow_set_order_witness:
  "hybrid_norms (kb_tie rev) ''q'' =
     Inr ([(''doc-a'', Fin (1 / 2)), (''doc-b'', Fin (1 / 2))],
          [(''doc-b'', Fin (1 / 2)), (''doc-a'', Fin (1 / 2))]) \<and>
   NaN \<notin> set (map (combined_score (Fin (1 / 2)) [(''doc-a'', Fin (1 / 2)), (''doc-b'', Fin (1 / 2))]
                       [(''doc-b'', Fin (1 / 2)), (''doc-a'', Fin (1 / 2))])
                  (all_doc_ids (kb_tie rev) [(''doc-a'', Fin (1 / 2)), (''doc-b'', Fin (1 / 2))]
                       [(''doc-b'', Fin (1 / 2)), (''doc-a'', Fin (1 / 2))])) \<and>
   map_sum id ranking (query_hybrid (kb_tie rev) ''q'' 2 (Fin (1 / 2))) = Inr [''doc-a'', ''doc-b''] \<and>
   subseq [''doc-a'', ''doc-b'']
     (all_doc_ids (kb_tie rev) [(''doc-a'', Fin (1 / 2)), (''doc-b'', Fin (1 / 2))]
        [(''doc-b'', Fin (1 / 2)), (''doc-a'', Fin (1 / 2))])"
proof -
  let ?kb = "kb_tie rev"
  let ?sn = "[(''doc-a'', Fin (1 / 2)), (''doc-b'', Fin (1 / 2))]"
  let ?kn = "[(''doc-b'', Fin (1 / 2)), (''doc-a'', Fin (1 / 2))]"
  let ?row = "\<lambda>x. \<lparr>r_doc = example_doc x, r_score = Fin (1 / 2), r_search_type = ''hybrid'',
        r_semantic_score = Some (Fin (1 / 2)), r_keyword_score = Some (Fin (1 / 2))\<rparr>"
  have n: "hybrid_norms ?kb ''q'' = Inr (?sn, ?kn)" by (rule kb_tie_norms)
  have nn: "NaN \<notin> set (map (combined_score (Fin (1 / 2)) ?sn ?kn) (all_doc_ids ?kb ?sn ?kn))"
    unfolding kb_tie_ids by (simp add: kb_tie_combined)
  have q: "query_hybrid ?kb ''q'' 2 (Fin (1 / 2)) = Inr [?row ''doc-a'', ?row ''doc-b'']"
    by (rule kb_tie_hybrid_ab)
  from hybrid_ties_follow_set_order [OF n nn, of 2] obtain rs where
    rs: "query_hybrid ?kb ''q'' 2 (Fin (1 / 2)) = Inr rs" and
    ord: "\<forall>i j. i < j \<and> j < length rs \<and> r_score (rs ! i) = r_score (rs ! j) \<longrightarrow>
              subseq [m_id (r_doc (rs ! i)), m_id (r_doc (rs ! j))] (all_doc_ids ?kb ?sn ?kn)"
    by blast
  from rs q have rseq: "rs = [?row ''doc-a'', ?row ''doc-b'']" by simp
  have "(0::nat) < 1 \<and> 1 < length rs \<and> r_score (rs ! 0) = r_score (rs ! 1)"
    unfolding rseq by simp
  with ord have "subseq [m_id (r_doc (rs ! 0)), m_id (r_doc (rs ! 1))] (all_doc_ids ?kb ?sn ?kn)"
    by blast
  then have s: "subseq [''doc-a'', ''doc-b''] (all_doc_ids ?kb ?sn ?kn)"
    unfolding rseq by (simp add: example_doc_def)
  have r: "map_sum id ranking (query_hybrid ?kb ''q'' 2 (Fin (1 / 2))) = Inr [''doc-a'', ''doc-b'']"
    unfolding q by (simp add: ranking_def example_doc_def)
  from n nn r s show ?thesis by blast
qed


section \<open>Properties of build\_embeddings.py\<close>

lemma py_split_not_Nil: "py_split sep s \<noteq> []"
  by (induction s) (auto split: list.splits)

lemma marker_prefixes_disjoint:
  "prefix ''**ID:**'' line \<Longrightarrow> \<not> prefix ''**Tags:**'' line \<and> \<not> prefix ''**Type:**'' line"
  "prefix ''**Tags:**'' line \<Longrightarrow> \<not> prefix ''**Type:**'' line"
  by (auto simp: prefix_def)

lemma scan_lines_snoc: "scan_lines (ls @ [line]) = scan_line (scan_lines ls) line"
  by (simp add: scan_lines_def)

lemma scan_line_doc_id:
  "ps_doc_id (scan_line st line) =
     (if prefix ''**ID:**'' line then Some (py_strip (py_remove ''**ID:**'' line)) else ps_doc_id st)"
  by (simp add: scan_line_def Let_def)

lemma scan_line_tags:
  "ps_tags (scan_line st line) =
     (if prefix ''**Tags:**'' line
      then map py_strip (py_split '','' (py_strip (py_remove ''**Tags:**'' line)))
      else ps_tags st)"
  using marker_prefixes_disjoint(1) [of line] by (simp add: scan_line_def Let_def)

lemma scan_line_doc_type:
  "ps_doc_type (scan_line st line) =
     (if prefix ''**Type:**'' line then Some (py_strip (py_remove ''**Type:**'' line))
      else ps_doc_type st)"
  using marker_prefixes_disjoint [of line] by (auto simp: scan_line_def Let_def)

lemma scan_lines_doc_id:
  "ps_doc_id (scan_lines ls) =
     (if filter (prefix ''**ID:**'') ls = [] then None
      else Some (py_strip (py_remove ''**ID:**'' (last (filter (prefix ''**ID:**'') ls)))))"
proof (induction ls rule: rev_induct)
  case Nil
  show ?case by (simp add: scan_lines_def init_state_def)
next
  case (snoc line ls)
  show ?case unfolding scan_lines_snoc scan_line_doc_id using snoc by simp
qed

lemma scan_lines_tags:
  "ps_tags (scan_lines ls) =
     (if filter (prefix ''**Tags:**'') ls = [] then []
      else map py_strip (py_split '','' (py_strip (py_remove ''**Tags:**''
             (last (filter (prefix ''**Tags:**'') ls))))))"
proof (induction ls rule: rev_induct)
  case Nil
  show ?case by (simp add: scan_lines_def init_state_def)
next
  case (snoc line ls)
  show ?case unfolding scan_lines_snoc scan_line_tags using snoc by simp
qed

lemma scan_lines_doc_type:
  "ps_doc_type (scan_lines ls) =
     (if filter (prefix ''**Type:**'') ls = [] then None
      else Some (py_strip (py_remove ''**Type:**'' (last (filter (prefix ''**Type:**'') ls)))))"
proof (induction ls rule: rev_induct)
  case Nil
  show ?case by (simp add: scan_lines_def init_state_def)
next
  case (snoc line ls)
  show ?case unfolding scan_lines_snoc scan_line_doc_type using snoc by simp
qed

text \<open>
  C6, counterexample.  The claim lets the first occurrence of a marker win.  In a
  section that gives each of \<open>ID\<close>, \<open>Tags\<close> and \<open>Type\<close> twice, the document gets the id,
  the tags and the type of the second lines.
\<close>

theorem parse_section_second_marker_wins:
  "parse_section ''corpus.md''
     (py_join newline
        [''Functor'', ''**ID:** def-first'', ''**Tags:** one, uno'', ''**Type:** definition'',
         ''**ID:** def-second'', ''**Tags:** two'', ''**Type:** law'', ''Body''])
   = Some \<lparr>m_id = ''def-second'', m_title = ''Functor'', m_tags = [''two''],
            m_type = Some ''law'', m_content = ''Body'', m_source_file = ''corpus.md''\<rparr>"
  by (simp add: newline_def parse_section_def scan_lines_def scan_line_def init_state_def
      py_strip_def is_space_def truthy_def)

text \<open>
  C6, amended.  For every section, each of the markers \<open>ID\<close>, \<open>Tags\<close> and \<open>Type\<close> sets its
  field at every occurrence, so the last occurrence in the section wins: the section
  yields a document exactly when the last \<open>ID\<close> line carries a non-empty id, and the
  id, tags and type of the document are those of the last \<open>ID\<close>, \<open>Tags\<close> and \<open>Type\<close>
  lines (no tags and no type when there is no such line).  No line raises an error.
\<close>

theorem parse_section_last_marker_wins:
  "map_option (\<lambda>doc. (m_id doc, m_tags doc, m_type doc)) (parse_section source_file section) =
     (let ls = tl (py_split newline section);
          id_lines = filter (prefix ''**ID:**'') ls;
          tags_lines = filter (prefix ''**Tags:**'') ls;
          type_lines = filter (prefix ''**Type:**'') ls
      in if id_lines = [] \<or> py_strip (py_remove ''**ID:**'' (last id_lines)) = [] then None
         else Some (py_strip (py_remove ''**ID:**'' (last id_lines)),
                    (if tags_lines = [] then []
                     else map py_strip (py_split '','' (py_strip (py_remove ''**Tags:**''
                            (last tags_lines))))),
                    (if type_lines = [] then None
                     else Some (py_strip (py_remove ''**Type:**'' (last type_lines))))))"
proof -
  obtain first_line rest where sp: "py_split newline section = first_line # rest"
    using py_split_not_Nil [of newline "section"] by (cases "py_split newline section") auto
  show ?thesis
    unfolding parse_section_def sp Let_def
    by (simp add: scan_lines_doc_id scan_lines_tags scan_lines_doc_type truthy_def)
qed







section \<open>Properties of build\_tensors.py\<close>

lemma corpus_related_docs:
  "fst (parse_markdown_corpus corpus_related) =
     [\<lparr>m_id = ''def-a'', m_title = ''Functor'', m_tags = [], m_type = Some ''definition'',
        m_content = ''Body'', m_source_file = ''corpus.md''\<rparr>,
      \<lparr>m_id = ''def-b'', m_title = ''Morphism'', m_tags = [], m_type = Some ''definition'',
        m_content = ''Text'', m_source_file = ''corpus.md''\<rparr>]"
  by (simp add: parse_markdown_corpus_def corpus_related_def parse_file_def List.map_filter_def
      newline_def parse_section_def scan_lines_def scan_line_def init_state_def
      py_strip_def is_space_def truthy_def)

lemma corpus_related_builder:
  "parse_corpus empty_builder (fst (parse_markdown_corpus corpus_related)) [[Fin 0], [Fin 1]] =
     Inr \<lparr>b_nodes =
            [(''def-a'', \<lparr>n_id = ''def-a'', n_type = Some ''definition'', n_tags = [],
                           n_embedding = Some [Fin 0]\<rparr>),
             (''def-b'', \<lparr>n_id = ''def-b'', n_type = Some ''definition'', n_tags = [],
                           n_embedding = Some [Fin 1]\<rparr>)],
          b_edges = []\<rparr>"
  unfolding corpus_related_docs
  by (simp add: parse_corpus_def embedding_lookup_def add_document_def empty_builder_def
      extract_relationships_def related_edges_def findall_role_def)

lemma sort_two_ids: "sort [''def-a'', ''def-b''] = [''def-a'', ''def-b'']"
  by (simp add: less_eq_char_def)

text \<open>
  C3.  The claim gives the graph one \<open>relates_to\<close> edge for each id listed on a
  "Related" line.  The parser drops every line that starts with \<open>**Related:**\<close>, so the
  content that the graph builder scans no longer holds the annotation: for a corpus
  in which \<open>def-a\<close> lists \<open>def-b\<close> as related, and \<open>def-b\<close> is a document of that corpus,
  the builder has no edge and the graph is built without edges.  On the text of the
  section itself the builder would find the edge.
\<close>

theorem related_line_yields_no_edge:
  "map_sum id m_content
     (py_get (fst (parse_markdown_corpus corpus_related)) 0) = Inr ''Body'' \<and>
   map_sum id b_edges
     (parse_corpus empty_builder (fst (parse_markdown_corpus corpus_related)) [[Fin 0], [Fin 1]]) =
     Inr [] \<and>
   map_sum id (\<lambda>g. (g_node_ids g, g_edge_index g, g_edge_type g))
     (case parse_corpus empty_builder (fst (parse_markdown_corpus corpus_related))
             [[Fin 0], [Fin 1]] of
        Inl e \<Rightarrow> Inl e
      | Inr b \<Rightarrow> build_graph b) = Inr ([''def-a'', ''def-b''], [], []) \<and>
   extract_relationships ''def-a'' (py_join newline [''Body'', ''**Related:** def-b'']) ''corpus.md'' =
     [(''def-a'', ''def-b'', ''relates_to'')]"
proof (intro conjI)
  show "map_sum id m_content
     (py_get (fst (parse_markdown_corpus corpus_related)) 0) = Inr ''Body''"
    unfolding corpus_related_docs by (simp add: py_get_def)
  show "map_sum id b_edges
     (parse_corpus empty_builder (fst (parse_markdown_corpus corpus_related)) [[Fin 0], [Fin 1]]) =
     Inr []"
    unfolding corpus_related_builder by simp
  show "map_sum id (\<lambda>g. (g_node_ids g, g_edge_index g, g_edge_type g))
     (case parse_corpus empty_builder (fst (parse_markdown_corpus corpus_related))
             [[Fin 0], [Fin 1]] of
        Inl e \<Rightarrow> Inl e
      | Inr b \<Rightarrow> build_graph b) = Inr ([''def-a'', ''def-b''], [], [])"
    unfolding corpus_related_builder
    by (simp add: build_graph_def sort_two_ids NODE_TYPES_def to_tensor_def del: sort_key_simps)
  show "extract_relationships ''def-a'' (py_join newline [''Body'', ''**Related:** def-b'']) ''corpus.md'' =
     [(''def-a'', ''def-b'', ''relates_to'')]"
    by (simp add: extract_relationships_def related_edges_def related_group_def newline_def
        py_strip_def is_space_def)
qed








lemma in_violation_pattern: "py_in ''violation-'' ''my-violation-pattern-1''"
  by simp






lemma edge_rows_skip:
  assumes "map_of node_to_idx src = None \<or> map_of node_to_idx dst = None"
  shows "edge_rows node_to_idx (before @ (src, dst, edge_type) # rest) =
         edge_rows node_to_idx (before @ rest)"
proof (induction before)
  case Nil
  from assms show ?case by (auto split: option.splits)
next
  case (Cons e before)
  obtain s d t where e: "e = (s, d, t)" by (cases e)
  show ?case unfolding e using Cons by (simp cong: option.case_cong)
qed

lemma node_to_idx_None:
  "map_of (zip (sort (map fst nodes)) [0..<length (sort (map fst nodes))]) i = None
     \<longleftrightarrow> i \<notin> set (map fst nodes)"
proof -
  let ?ids = "sort (map fst nodes)"
  have "length ?ids = length [0..<length ?ids]" by simp
  then have "map_of (zip ?ids [0..<length ?ids]) i = None \<longleftrightarrow> i \<notin> set ?ids"
    by (rule map_of_zip_is_None)
  then show ?thesis by simp
qed

lemma dangling_builder:
  "parse_corpus empty_builder metadata_dangling [[Fin 0]] =
     Inr \<lparr>b_nodes = [(''test-compose'',
                       \<lparr>n_id = ''test-compose'', n_type = Some ''test_template'', n_tags = [],
                         n_embedding = Some [Fin 0]\<rparr>)],
          b_edges = [(''test-compose'', ''pattern-missing'', ''verifies'')]\<rparr>"
  by (simp add: parse_corpus_def embedding_lookup_def add_document_def empty_builder_def
      metadata_dangling_def extract_relationships_def related_edges_def findall_role_def
      is_word_or_hyphen_def)

lemma dangling_graph:
  "build_graph \<lparr>b_nodes = [(''test-compose'',
                       \<lparr>n_id = ''test-compose'', n_type = Some ''test_template'', n_tags = [],
                         n_embedding = Some [Fin 0]\<rparr>)],
                b_edges = edges\<rparr> =
   map_sum id
     (\<lambda>es. \<lparr>g_x = [[Fin 0]], g_edge_index = map fst es, g_node_type = [6],
             g_edge_type = map snd es, g_node_ids = [''test-compose''],
             g_node_to_idx = [(''test-compose'', 0)]\<rparr>)
     (edge_rows [(''test-compose'', 0)] edges)"
  by (cases "edge_rows [(''test-compose'', 0)] edges")
     (simp_all add: build_graph_def NODE_TYPES_def to_tensor_def)

text \<open>
  C9, counterexample.  The claim keeps dangling edges in the output artifacts.  For a
  test template that names a pattern outside the corpus the builder records the edge
  \<open>test-compose \<rightarrow> pattern-missing\<close>, but the graph has no edge, and the files that
  \<open>save_graph_tensor\<close> writes hold the graph, the type tables, the model and statistics
  with an edge count of zero: the dangling edge is in none of them.
\<close>

theorem dangling_edge_not_saved:
  "map_sum id b_edges (parse_corpus empty_builder metadata_dangling [[Fin 0]]) =
     Inr [(''test-compose'', ''pattern-missing'', ''verifies'')] \<and>
   (case parse_corpus empty_builder metadata_dangling [[Fin 0]] of
      Inl e \<Rightarrow> Inl e
    | Inr b \<Rightarrow> map_sum id (\<lambda>g. save_graph_tensor g ()) (build_graph b)) =
     Inr \<lparr>a_graph_file =
            (\<lparr>g_x = [[Fin 0]], g_edge_index = [], g_node_type = [6], g_edge_type = [],
               g_node_ids = [''test-compose''], g_node_to_idx = [(''test-compose'', 0)]\<rparr>,
             NODE_TYPES, EDGE_TYPES),
          a_model_file = (),
          a_stats_file =
            Inr \<lparr>s_num_nodes = 1, s_num_edges = 0, s_node_feature_dim = 1,
                 s_nodes_by_type =
                   [(''definition'', 0), (''law'', 0), (''pattern'', 0), (''violation'', 0),
                    (''fix'', 0), (''example'', 0), (''test_template'', 1)],
                 s_edges_by_type =
                   [(''defines'', 0), (''requires'', 0), (''verifies'', 0), (''violates'', 0),
                    (''fixes'', 0), (''implements'', 0), (''relates_to'', 0), (''uses'', 0)]\<rparr>\<rparr>"
proof
  show "map_sum id b_edges (parse_corpus empty_builder metadata_dangling [[Fin 0]]) =
     Inr [(''test-compose'', ''pattern-missing'', ''verifies'')]"
    unfolding dangling_builder by simp
  show "(case parse_corpus empty_builder metadata_dangling [[Fin 0]] of
      Inl e \<Rightarrow> Inl e
    | Inr b \<Rightarrow> map_sum id (\<lambda>g. save_graph_tensor g ()) (build_graph b)) =
     Inr \<lparr>a_graph_file =
            (\<lparr>g_x = [[Fin 0]], g_edge_index = [], g_node_type = [6], g_edge_type = [],
               g_node_ids = [''test-compose''], g_node_to_idx = [(''test-compose'', 0)]\<rparr>,
             NODE_TYPES, EDGE_TYPES),
          a_model_file = (),
          a_stats_file =
            Inr \<lparr>s_num_nodes = 1, s_num_edges = 0, s_node_feature_dim = 1,
                 s_nodes_by_type =
                   [(''definition'', 0), (''law'', 0), (''pattern'', 0), (''violation'', 0),
                    (''fix'', 0), (''example'', 0), (''test_template'', 1)],
                 s_edges_by_type =
                   [(''defines'', 0), (''requires'', 0), (''verifies'', 0), (''violates'', 0),
                    (''fixes'', 0), (''implements'', 0), (''relates_to'', 0), (''uses'', 0)]\<rparr>\<rparr>"
    unfolding dangling_builder
    by (simp add: dangling_graph save_graph_tensor_def graph_stats_def)
       (simp add: NODE_TYPES_def EDGE_TYPES_def)
qed

text \<open>
  C9, amended.  For every edge whose source or destination id is not the id of a node
  of the builder, \<open>build_graph\<close> returns what it returns without that edge, so the edge
  is excluded from the graph; and since \<open>save_graph_tensor\<close> writes nothing but the
  graph, the type tables, the model and statistics of the graph, the output artifacts
  are the same as without the edge: the edge is dropped, not preserved.
\<close>

theorem build_graph_drops_dangling_edge:
  assumes "src \<notin> set (map fst (b_nodes self)) \<or> dst \<notin> set (map fst (b_nodes self))"
  shows "build_graph (self\<lparr>b_edges := before @ (src, dst, edge_type) # rest\<rparr>) =
           build_graph (self\<lparr>b_edges := before @ rest\<rparr>) \<and>
         map_sum id (\<lambda>g. save_graph_tensor g model)
             (build_graph (self\<lparr>b_edges := before @ (src, dst, edge_type) # rest\<rparr>)) =
           map_sum id (\<lambda>g. save_graph_tensor g model)
             (build_graph (self\<lparr>b_edges := before @ rest\<rparr>))"
proof -
  let ?ids = "sort (map fst (b_nodes self))"
  let ?idx = "zip ?ids [0..<length ?ids]"
  have "map_of ?idx src = None \<or> map_of ?idx dst = None"
    using assms unfolding node_to_idx_None .
  then have rows: "edge_rows ?idx (before @ (src, dst, edge_type) # rest) =
                   edge_rows ?idx (before @ rest)"
    by (rule edge_rows_skip)
  then have rows: "edge_rows (zip ?ids [0..<length (b_nodes self)])
                     (before @ (src, dst, edge_type) # rest) =
                   edge_rows (zip ?ids [0..<length (b_nodes self)]) (before @ rest)"
    by simp
  have g: "build_graph (self\<lparr>b_edges := before @ (src, dst, edge_type) # rest\<rparr>) =
           build_graph (self\<lparr>b_edges := before @ rest\<rparr>)"
    unfolding build_graph_def Let_def by (simp add: rows cong: sum.case_cong)
  then show ?thesis by simp
qed

text \<open>
  The test template again: with its dangling edge the builder yields the graph
  without edges, the graph of the builder that has no edge at all.
\<close>

theorem build_graph_drops_dangling_edge_witness:
  "''pattern-missing'' \<notin> set (map fst [(''test-compose'',
                       \<lparr>n_id = ''test-compose'', n_type = Some ''test_template'', n_tags = [],
                         n_embedding = Some [Fin 0]\<rparr>)]) \<and>
   build_graph \<lparr>b_nodes = [(''test-compose'',
                       \<lparr>n_id = ''test-compose'', n_type = Some ''test_template'', n_tags = [],
                         n_embedding = Some [Fin 0]\<rparr>)],
                b_edges = [(''test-compose'', ''pattern-missing'', ''verifies'')]\<rparr> =
     Inr \<lparr>g_x = [[Fin 0]], g_edge_index = [], g_node_type = [6], g_edge_type = [],
          g_node_ids = [''test-compose''], g_node_to_idx = [(''test-compose'', 0)]\<rparr>"
proof -
  let ?nodes = "[(''test-compose'',
                       \<lparr>n_id = ''test-compose'', n_type = Some ''test_template'', n_tags = [],
                         n_embedding = Some [Fin 0]\<rparr>)]"
  let ?b = "\<lparr>b_nodes = ?nodes, b_edges = []\<rparr>"
  have h: "''pattern-missing'' \<notin> set (map fst ?nodes)" by simp
  then have "''test-compose'' \<notin> set (map fst (b_nodes ?b)) \<or>
             ''pattern-missing'' \<notin> set (map fst (b_nodes ?b))" by simp
  from build_graph_drops_dangling_edge [OF this, of "[]" "''verifies''" "[]", THEN conjunct1]
  have "build_graph (?b\<lparr>b_edges := [(''test-compose'', ''pattern-missing'', ''verifies'')]\<rparr>) =
        build_graph (?b\<lparr>b_edges := []\<rparr>)" by simp
  then have "build_graph \<lparr>b_nodes = ?nodes,
                b_edges = [(''test-compose'', ''pattern-missing'', ''verifies'')]\<rparr> =
             build_graph \<lparr>b_nodes = ?nodes, b_edges = []\<rparr>" by simp
  also have "\<dots> = Inr \<lparr>g_x = [[Fin 0]], g_edge_index = [], g_node_type = [6], g_edge_type = [],
          g_node_ids = [''test-compose''], g_node_to_idx = [(''test-compose'', 0)]\<rparr>"
    by (simp add: dangling_graph)
  finally show ?thesis using h by blast
qed

end
